theory Spec2Isabelle
  imports Main
begin

section \<open>Data model\<close>

text \<open>
  The tables of the schema, as far as the stored procedures and the balance trigger of
  the migration \<^verbatim>\<open>9999999999999_excelencia_core.sql\<close> and of
  \<^verbatim>\<open>20251107000002_reconciliation_functions.sql\<close> read or write them. A table
  is the list of its rows. Identifiers (UUID) and instants (TIMESTAMPTZ) are opaque and
  stand as natural numbers; a nullable column is an \<open>option\<close>.
\<close>

type_synonym uuid = nat
type_synonym timestamptz = nat

datatype account_type = Checking | Savings | Credit | Investment

datatype txn_type = Income | Expense | Transfer

datatype txn_status = Pending | Completed

record account =
  acc_id :: uuid
  acc_user_id :: uuid
  acc_type :: account_type
  balance :: int
  acc_closing_date :: "int option"
  acc_due_date :: "int option"

record txn =
  txn_id :: uuid
  user_id :: uuid
  account_id :: uuid
  to_account_id :: "uuid option"
  amount :: int
  txn_type :: txn_type
  status :: txn_status
  is_paid :: bool
  date :: string
  category_id :: "uuid option"
  description :: string
  transfer_id :: "uuid option"
  include_in_reports :: bool
  bank_reference :: "string option"
  reconciliation_date :: "timestamptz option"
  updated_at :: timestamptz

subsection \<open>Calendar dates\<close>

text \<open>
  A DATE of PostgreSQL: a day of the proleptic Gregorian calendar. The day arithmetic of
  the billing job is PostgreSQL's own (\<^verbatim>\<open>date_trunc\<close>, adding an interval of days,
  adding an interval of months, which keeps the day of the month and clamps it to the
  length of the month reached); it is written out here because the job is made of it. The
  functions of this section are total on every year; the limits of PostgreSQL's timestamp
  range are checked where the billing job computes its dates.
\<close>

datatype pg_date = Date (year: int) (month: nat) (day: nat)

definition is_leap_year :: "int \<Rightarrow> bool" where
  "is_leap_year y \<longleftrightarrow> (y mod 4 = 0 \<and> y mod 100 \<noteq> 0) \<or> y mod 400 = 0"

definition days_in_month :: "int \<Rightarrow> nat \<Rightarrow> nat" where
  "days_in_month y m =
     (if m = 2 then (if is_leap_year y then 29 else 28)
      else if m = 4 \<or> m = 6 \<or> m = 9 \<or> m = 11 then 30 else 31)"

fun next_day :: "pg_date \<Rightarrow> pg_date" where
  "next_day (Date y m d) =
     (if d < days_in_month y m then Date y m (d + 1)
      else if m < 12 then Date y (m + 1) 1
      else Date (y + 1) 1 1)"

fun prev_day :: "pg_date \<Rightarrow> pg_date" where
  "prev_day (Date y m d) =
     (if 1 < d then Date y m (d - 1)
      else if 1 < m then Date y (m - 1) (days_in_month y (m - 1))
      else Date (y - 1) 12 31)"

fun date_trunc_month :: "pg_date \<Rightarrow> pg_date" where
  "date_trunc_month (Date y m d) = Date y m 1"

definition date_pl_days :: "pg_date \<Rightarrow> int \<Rightarrow> pg_date" where
  "date_pl_days d k = (if 0 \<le> k then (next_day ^^ nat k) d else (prev_day ^^ nat (- k)) d)"

fun date_pl_months :: "pg_date \<Rightarrow> int \<Rightarrow> pg_date" where
  "date_pl_months (Date y m d) k =
     (let t = y * 12 + (int m - 1) + k;
          y' = t div 12;
          m' = nat (t mod 12) + 1
      in Date y' m' (min d (days_in_month y' m')))"

fun date_less :: "pg_date \<Rightarrow> pg_date \<Rightarrow> bool" where
  "date_less (Date y m d) (Date y' m' d') \<longleftrightarrow>
     y < y' \<or> (y = y' \<and> (m < m' \<or> (m = m' \<and> d < d')))"

definition date_le :: "pg_date \<Rightarrow> pg_date \<Rightarrow> bool" where
  "date_le a b \<longleftrightarrow> a = b \<or> date_less a b"

subsection \<open>Billing cycles, categories, audit records and the database\<close>

datatype bill_status = Open | Closed | Paid

text \<open>
  \<^verbatim>\<open>credit_bills\<close>, with its \<^verbatim>\<open>UNIQUE (account_id, closing_date)\<close>. The
  generated primary key \<^verbatim>\<open>id\<close> is left out: nothing modelled here reads it.
\<close>

record credit_bill =
  bill_user_id :: uuid
  bill_account_id :: uuid
  bill_status :: bill_status
  start_date :: pg_date
  closing_date :: pg_date
  due_date :: pg_date
  total_amount :: int
  paid_amount :: int
  bill_created_at :: timestamptz
  bill_updated_at :: timestamptz

record category =
  cat_id :: uuid
  cat_name :: string
  cat_color :: "string option"

text \<open>
  \<^verbatim>\<open>audit_log\<close>. Its JSONB columns hold either the object that
  \<^verbatim>\<open>reconcile_transaction\<close> builds or a row of a table as \<^verbatim>\<open>row_to_json\<close> gives
  it. The generated \<^verbatim>\<open>id\<close> is left out.
\<close>

datatype json_values =
  Reconciliation_Json "string option" "timestamptz option"
  | Transaction_Json txn
  | Account_Json account

record audit_log_row =
  operation :: string
  table_name :: string
  record_id :: uuid
  old_values :: "json_values option"
  new_values :: "json_values option"
  audit_user_id :: uuid
  ip_address :: "string option"
  audit_timestamp :: timestamptz

record db =
  accounts :: "account list"
  transactions :: "txn list"
  credit_bills :: "credit_bill list"
  categories :: "category list"
  audit_log :: "audit_log_row list"

text \<open>
  What a call reads from its session: \<^verbatim>\<open>now()\<close>, \<^verbatim>\<open>auth.uid()\<close> and the
  \<^verbatim>\<open>x-real-ip\<close> request header.
\<close>

record session =
  session_now :: timestamptz
  auth_uid :: uuid
  x_real_ip :: "string option"

text \<open>
  What a statement can raise. PostgreSQL aborts the statement and, with it, the enclosing
  transaction: a function of the model that raises returns \<open>Inl\<close> and no new state.
\<close>

datatype error =
  Bigint_Out_Of_Range | Integer_Out_Of_Range | Numeric_Field_Overflow
  | Timestamp_Out_Of_Range | Invalid_Date_Text | Undefined_Table
  | Transfer_Not_Positive | Insufficient_Balance

definition bind_result :: "error + 'a \<Rightarrow> ('a \<Rightarrow> error + 'b) \<Rightarrow> error + 'b" where
  "bind_result m f = (case m of Inl e \<Rightarrow> Inl e | Inr x \<Rightarrow> f x)"

subsection \<open>BIGINT arithmetic\<close>

text \<open>
  \<^verbatim>\<open>amount\<close>, \<^verbatim>\<open>balance\<close> and the trigger's variables are BIGINT. PostgreSQL
  does not wrap around: a sum, difference, negation or absolute value outside
  \<open>-2^63 .. 2^63 - 1\<close> raises "bigint out of range".
\<close>

definition bigint_range :: "int \<Rightarrow> bool" where
  "bigint_range n \<longleftrightarrow> - (2 ^ 63) \<le> n \<and> n < 2 ^ 63"

definition int8 :: "int \<Rightarrow> error + int" where
  "int8 n = (if bigint_range n then Inr n else Inl Bigint_Out_Of_Range)"

definition int8pl :: "int \<Rightarrow> int \<Rightarrow> error + int" where
  "int8pl a b = int8 (a + b)"

definition int8mi :: "int \<Rightarrow> int \<Rightarrow> error + int" where
  "int8mi a b = int8 (a - b)"

definition int8um :: "int \<Rightarrow> error + int" where
  "int8um a = int8 (- a)"

definition int8abs :: "int \<Rightarrow> error + int" where
  "int8abs a = int8 (abs a)"

section \<open>The balance trigger\<close>

text \<open>
  \<^verbatim>\<open>UPDATE public.accounts SET balance = f(balance) WHERE id = k\<close>: every row of
  \<^verbatim>\<open>accounts\<close> whose id is \<open>k\<close> gets the new balance; no row with that id is no
  change and no error.
\<close>

fun update_accounts_set_balance ::
  "(int \<Rightarrow> error + int) \<Rightarrow> uuid \<Rightarrow> account list \<Rightarrow> error + account list" where
  "update_accounts_set_balance f k [] = Inr []"
| "update_accounts_set_balance f k (a # as) =
     (if acc_id a = k
      then bind_result (f (balance a)) (\<lambda>b.
           bind_result (update_accounts_set_balance f k as) (\<lambda>as'.
           Inr (a\<lparr>balance := b\<rparr> # as')))
      else bind_result (update_accounts_set_balance f k as) (\<lambda>as'. Inr (a # as')))"

text \<open>
  The row-level event the trigger is fired with: \<^verbatim>\<open>TG_OP\<close> and the rows
  \<^verbatim>\<open>OLD\<close> and \<^verbatim>\<open>NEW\<close> that exist for it.
\<close>

datatype trigger_event = INSERT txn | DELETE txn | UPDATE txn txn

text \<open>
  \<^verbatim>\<open>public.update_account_balance()\<close> as the rewritten migration declares it (the
  revision that reads \<^verbatim>\<open>is_paid\<close> and still handles \<^verbatim>\<open>to_account_id\<close>
  on UPDATE). \<open>v_old_amount\<close> and \<open>v_new_amount\<close> start at 0.
\<close>

fun update_account_balance :: "trigger_event \<Rightarrow> account list \<Rightarrow> error + account list" where
  "update_account_balance (INSERT new) accs =
     (let v_new_amount = (if is_paid new then amount new else 0) in
      update_accounts_set_balance (\<lambda>b. int8pl b v_new_amount) (account_id new) accs)"
| "update_account_balance (DELETE old) accs =
     bind_result (if is_paid old then int8um (amount old) else Inr 0) (\<lambda>v_old_amount.
     update_accounts_set_balance (\<lambda>b. int8pl b v_old_amount) (account_id old) accs)"
| "update_account_balance (UPDATE old new) accs =
     bind_result (if is_paid old then int8um (amount old) else Inr 0) (\<lambda>v_old_amount.
     let v_new_amount = (if is_paid new then amount new else 0) in
     bind_result
       (if account_id old = account_id new
        then update_accounts_set_balance
               (\<lambda>b. bind_result (int8pl b v_new_amount) (\<lambda>x. int8pl x v_old_amount))
               (account_id new) accs
        else bind_result
               (update_accounts_set_balance (\<lambda>b. int8pl b v_old_amount) (account_id old) accs)
               (update_accounts_set_balance (\<lambda>b. int8pl b v_new_amount) (account_id new)))
       (\<lambda>accs1.
     bind_result
       (case to_account_id old of
          Some k \<Rightarrow>
            if txn_type old = Transfer
            then update_accounts_set_balance (\<lambda>b. int8mi b v_old_amount) k accs1
            else Inr accs1
        | None \<Rightarrow> Inr accs1)
       (\<lambda>accs2.
       (case to_account_id new of
          Some k \<Rightarrow>
            if txn_type new = Transfer
            then update_accounts_set_balance (\<lambda>b. int8mi b v_new_amount) k accs2
            else Inr accs2
        | None \<Rightarrow> Inr accs2))))"

text \<open>The balance stored for an account id (the first row with that id), if there is one.\<close>

definition balance_of :: "account list \<Rightarrow> uuid \<rightharpoonup> int" where
  "balance_of accs k = map_option balance (find (\<lambda>a. acc_id a = k) accs)"


section \<open>Net effect of the trigger on one balance\<close>

text \<open>
  The amount the trigger adds to the balance of account \<open>j\<close> when it does not raise:
  the sum of the deltas of its \<^verbatim>\<open>UPDATE accounts\<close> statements that name \<open>j\<close>.
\<close>

fun net_delta :: "trigger_event \<Rightarrow> uuid \<Rightarrow> int" where
  "net_delta (INSERT new) j =
     (if j = account_id new then (if is_paid new then amount new else 0) else 0)"
| "net_delta (DELETE old) j =
     (if j = account_id old then (if is_paid old then - amount old else 0) else 0)"
| "net_delta (UPDATE old new) j =
     (if j = account_id old then (if is_paid old then - amount old else 0) else 0)
   + (if j = account_id new then (if is_paid new then amount new else 0) else 0)
   + (if txn_type old = Transfer \<and> to_account_id old = Some j
      then (if is_paid old then amount old else 0) else 0)
   + (if txn_type new = Transfer \<and> to_account_id new = Some j
      then (if is_paid new then - amount new else 0) else 0)"

lemma bind_result_Inr:
  "bind_result m f = Inr y \<longleftrightarrow> (\<exists>x. m = Inr x \<and> f x = Inr y)"
  by (cases m) (simp_all add: bind_result_def)

lemma int8_Inr: "int8 n = Inr m \<longleftrightarrow> bigint_range n \<and> m = n"
  by (auto simp: int8_def)

definition add_to_balances :: "(uuid \<Rightarrow> int) \<Rightarrow> account list \<Rightarrow> account list" where
  "add_to_balances d accs = map (\<lambda>a. a\<lparr>balance := balance a + d (acc_id a)\<rparr>) accs"

lemma add_to_balances_comp:
  "add_to_balances e (add_to_balances d accs) = add_to_balances (\<lambda>j. d j + e j) accs"
  by (simp add: add_to_balances_def add.assoc)

lemma add_to_balances_zero: "add_to_balances (\<lambda>j. 0) accs = accs"
  by (simp add: add_to_balances_def)

lemma balance_of_add_to_balances:
  "balance_of (add_to_balances d accs) j = map_option (\<lambda>b. b + d j) (balance_of accs j)"
  by (induction accs) (simp_all add: add_to_balances_def balance_of_def)

lemma set_balance_delta:
  assumes "update_accounts_set_balance f k accs = Inr accs'"
    and "\<And>b b'. f b = Inr b' \<Longrightarrow> b' = b + d"
  shows "accs' = add_to_balances (\<lambda>j. if j = k then d else 0) accs"
  using assms(1)
proof (induction accs arbitrary: accs')
  case Nil
  then show ?case by (simp add: add_to_balances_def)
next
  case (Cons a as)
  then show ?case
    using assms(2) by (auto simp: bind_result_Inr add_to_balances_def split: if_splits)
qed

lemma counter_step:
  assumes "(case t of Some k \<Rightarrow> if ty = Transfer then update_accounts_set_balance (\<lambda>b. int8mi b v) k accs else Inr accs
            | None \<Rightarrow> Inr accs) = Inr accs'"
  shows "accs' = add_to_balances (\<lambda>j. if ty = Transfer \<and> t = Some j then - v else 0) accs"
proof (cases "ty = Transfer \<and> t \<noteq> None")
  case True
  then obtain k where k: "t = Some k" by auto
  with True assms have "update_accounts_set_balance (\<lambda>b. int8mi b v) k accs = Inr accs'" by simp
  from set_balance_delta [OF this, of "- v"] have "accs' = add_to_balances (\<lambda>j. if j = k then - v else 0) accs"
    by (auto simp: int8mi_def int8_Inr)
  moreover have "(\<lambda>j. if j = k then - v else 0) = (\<lambda>j. if ty = Transfer \<and> t = Some j then - v else 0)"
    using True k by auto
  ultimately show ?thesis by simp
next
  case False
  with assms have "accs' = accs" by (auto split: option.splits)
  moreover have "(\<lambda>j. if ty = Transfer \<and> t = Some j then - v else 0) = (\<lambda>j. 0)"
    using False by auto
  ultimately show ?thesis by (simp add: add_to_balances_zero)
qed

lemma primary_step:
  assumes "(if ko = kn
        then update_accounts_set_balance
               (\<lambda>b. bind_result (int8pl b vn) (\<lambda>x. int8pl x vo)) kn accs
        else bind_result
               (update_accounts_set_balance (\<lambda>b. int8pl b vo) ko accs)
               (update_accounts_set_balance (\<lambda>b. int8pl b vn) kn)) = Inr accs'"
  shows "accs' = add_to_balances (\<lambda>j. (if j = ko then vo else 0) + (if j = kn then vn else 0)) accs"
proof (cases "ko = kn")
  case True
  with assms have "update_accounts_set_balance
               (\<lambda>b. bind_result (int8pl b vn) (\<lambda>x. int8pl x vo)) kn accs = Inr accs'" by simp
  from set_balance_delta [OF this, of "vo + vn"]
  have "accs' = add_to_balances (\<lambda>j. if j = kn then vo + vn else 0) accs"
    by (auto simp: int8pl_def int8_Inr bind_result_Inr)
  moreover have "(\<lambda>j. if j = kn then vo + vn else 0) =
      (\<lambda>j. (if j = ko then vo else 0) + (if j = kn then vn else 0))"
    using True by auto
  ultimately show ?thesis by simp
next
  case False
  with assms obtain accs1 where
    1: "update_accounts_set_balance (\<lambda>b. int8pl b vo) ko accs = Inr accs1" and
    2: "update_accounts_set_balance (\<lambda>b. int8pl b vn) kn accs1 = Inr accs'"
    by (auto simp: bind_result_Inr)
  have a: "accs1 = add_to_balances (\<lambda>j. if j = ko then vo else 0) accs"
    by (rule set_balance_delta [OF 1]) (auto simp: int8pl_def int8_Inr)
  have b: "accs' = add_to_balances (\<lambda>j. if j = kn then vn else 0) accs1"
    by (rule set_balance_delta [OF 2]) (auto simp: int8pl_def int8_Inr)
  show ?thesis unfolding b a add_to_balances_comp ..
qed

text \<open>
  When the trigger does not raise, every account row keeps its columns but the balance,
  which grows by \<open>net_delta\<close>.
\<close>

lemma trigger_accounts:
  assumes "update_account_balance ev accs = Inr accs'"
  shows "accs' = add_to_balances (net_delta ev) accs"
proof (cases ev)
  case (INSERT new)
  with assms have "update_accounts_set_balance (\<lambda>b. int8pl b (if is_paid new then amount new else 0))
     (account_id new) accs = Inr accs'" by (simp add: Let_def)
  from set_balance_delta [OF this, of "if is_paid new then amount new else 0"]
  have "accs' = add_to_balances (\<lambda>j. if j = account_id new then (if is_paid new then amount new else 0) else 0) accs"
    by (auto simp: int8pl_def int8_Inr)
  moreover have "net_delta ev = (\<lambda>j. if j = account_id new then (if is_paid new then amount new else 0) else 0)"
    using INSERT by auto
  ultimately show ?thesis by simp
next
  case (DELETE old)
  with assms obtain v where v: "(if is_paid old then int8um (amount old) else Inr 0) = Inr v"
    and u: "update_accounts_set_balance (\<lambda>b. int8pl b v) (account_id old) accs = Inr accs'"
    by (auto simp: bind_result_Inr)
  from v have v': "v = (if is_paid old then - amount old else 0)"
    by (auto simp: int8um_def int8_Inr split: if_splits)
  from set_balance_delta [OF u, of v]
  have "accs' = add_to_balances (\<lambda>j. if j = account_id old then v else 0) accs"
    by (auto simp: int8pl_def int8_Inr)
  moreover have "net_delta ev = (\<lambda>j. if j = account_id old then v else 0)"
    using DELETE v' by auto
  ultimately show ?thesis by simp
next
  case (UPDATE old new)
  define vn where "vn = (if is_paid new then amount new else 0)"
  from assms have
    "bind_result (if is_paid old then int8um (amount old) else Inr 0) (\<lambda>vo.
     bind_result
       (if account_id old = account_id new
        then update_accounts_set_balance
               (\<lambda>b. bind_result (int8pl b vn) (\<lambda>x. int8pl x vo)) (account_id new) accs
        else bind_result
               (update_accounts_set_balance (\<lambda>b. int8pl b vo) (account_id old) accs)
               (update_accounts_set_balance (\<lambda>b. int8pl b vn) (account_id new)))
       (\<lambda>accs1.
     bind_result
       (case to_account_id old of
          Some k \<Rightarrow>
            if txn_type old = Transfer
            then update_accounts_set_balance (\<lambda>b. int8mi b vo) k accs1
            else Inr accs1
        | None \<Rightarrow> Inr accs1)
       (\<lambda>accs2.
       (case to_account_id new of
          Some k \<Rightarrow>
            if txn_type new = Transfer
            then update_accounts_set_balance (\<lambda>b. int8mi b vn) k accs2
            else Inr accs2
        | None \<Rightarrow> Inr accs2)))) = Inr accs'"
    unfolding UPDATE vn_def update_account_balance.simps Let_def .
  then obtain vo accs1 accs2 where
    v: "(if is_paid old then int8um (amount old) else Inr 0) = Inr vo" and
    p: "(if account_id old = account_id new
        then update_accounts_set_balance
               (\<lambda>b. bind_result (int8pl b vn) (\<lambda>x. int8pl x vo)) (account_id new) accs
        else bind_result
               (update_accounts_set_balance (\<lambda>b. int8pl b vo) (account_id old) accs)
               (update_accounts_set_balance (\<lambda>b. int8pl b vn) (account_id new))) = Inr accs1" and
    c1: "(case to_account_id old of Some k \<Rightarrow> if txn_type old = Transfer then update_accounts_set_balance (\<lambda>b. int8mi b vo) k accs1 else Inr accs1
            | None \<Rightarrow> Inr accs1) = Inr accs2" and
    c2: "(case to_account_id new of Some k \<Rightarrow> if txn_type new = Transfer then update_accounts_set_balance (\<lambda>b. int8mi b vn) k accs2 else Inr accs2
            | None \<Rightarrow> Inr accs2) = Inr accs'"
    unfolding bind_result_Inr by blast
  from v have vo: "vo = (if is_paid old then - amount old else 0)"
    by (auto simp: int8um_def int8_Inr split: if_splits)
  have "net_delta ev = (\<lambda>j. (if j = account_id old then vo else 0) + (if j = account_id new then vn else 0)
      + (if txn_type old = Transfer \<and> to_account_id old = Some j then - vo else 0)
      + (if txn_type new = Transfer \<and> to_account_id new = Some j then - vn else 0))"
    using UPDATE by (auto simp: vo vn_def)
  then show ?thesis
    unfolding counter_step [OF c2] counter_step [OF c1] primary_step [OF p] add_to_balances_comp
    by simp
qed

lemma trigger_net_delta:
  assumes "update_account_balance ev accs = Inr accs'"
  shows "balance_of accs' j = map_option (\<lambda>b. b + net_delta ev j) (balance_of accs j)"
  unfolding trigger_accounts [OF assms] by (rule balance_of_add_to_balances)

section \<open>Statements on the ledger\<close>

text \<open>
  The trigger \<^verbatim>\<open>on_transaction_change\<close> is declared
  \<^verbatim>\<open>AFTER INSERT OR UPDATE OR DELETE ON transactions FOR EACH ROW\<close>.
  \<open>insert_transaction\<close> is the INSERT of one row with that trigger, the one that writes
  balances. The validation and audit triggers that a later migration puts on the table
  are modelled with the UPDATE of the section on bank reconciliation.
\<close>

definition insert_transaction :: "txn \<Rightarrow> db \<Rightarrow> error + db" where
  "insert_transaction row s =
     bind_result (update_account_balance (INSERT row) (accounts s)) (\<lambda>accs.
     Inr (s\<lparr>accounts := accs, transactions := transactions s @ [row]\<rparr>))"

subsection \<open>The balance a ledger stands for\<close>

definition settled_primary :: "txn list \<Rightarrow> uuid \<Rightarrow> int" where
  "settled_primary ts k = sum_list (map amount (filter (\<lambda>t. is_paid t \<and> account_id t = k) ts))"

definition settled_counter :: "txn list \<Rightarrow> uuid \<Rightarrow> int" where
  "settled_counter ts k =
     sum_list (map amount
       (filter (\<lambda>t. is_paid t \<and> txn_type t = Transfer \<and> to_account_id t = Some k) ts))"

definition ledger_balance :: "txn list \<Rightarrow> uuid \<Rightarrow> int" where
  "ledger_balance ts k = settled_primary ts k - settled_counter ts k"

definition consistent :: "db \<Rightarrow> bool" where
  "consistent s \<longleftrightarrow>
     list_all (\<lambda>a. balance a = ledger_balance (transactions s) (acc_id a)) (accounts s)"

subsection \<open>Rows for the examples\<close>

definition acct :: "uuid \<Rightarrow> int \<Rightarrow> account" where
  "acct k b = \<lparr>acc_id = k, acc_user_id = 7, acc_type = Checking, balance = b,
     acc_closing_date = None, acc_due_date = None\<rparr>"

definition ledger_row :: "uuid \<Rightarrow> uuid \<Rightarrow> uuid option \<Rightarrow> txn_type \<Rightarrow> int \<Rightarrow> bool \<Rightarrow> txn" where
  "ledger_row i a t ty m p =
     \<lparr>txn_id = i, user_id = 7, account_id = a, to_account_id = t, amount = m, txn_type = ty,
      status = (if p then Completed else Pending), is_paid = p, date = ''2025-03-10'',
      category_id = None, description = ''example'', transfer_id = None,
      include_in_reports = True, bank_reference = None, reconciliation_date = None,
      updated_at = 0\<rparr>"

definition two_accounts :: "int \<Rightarrow> int \<Rightarrow> db" where
  "two_accounts a b = \<lparr>accounts = [acct 11 a, acct 12 b], transactions = [], credit_bills = [],
     categories = [], audit_log = []\<rparr>"

lemmas eval_defs = ledger_row_def acct_def bind_result_def int8pl_def int8mi_def int8um_def int8abs_def int8_def bigint_range_def two_accounts_def

section \<open>The balance invariant and the counter-account\<close>

text \<open>
  Claim C1. For every account, after any sequence of Insert/Update/Delete events handled by
  the balance trigger from a consistent state, the cached balance equals the sum of the
  settled entries that name the account as primary account minus the sum of the settled
  transfer entries that name it as counter-account.

  The trigger breaks this at its first step. Two accounts 11 and 12 with balance 0 and an
  empty ledger are consistent. Inserting one settled transfer of 500 from 11 to 12 succeeds
  and leaves account 12 at 0, while the ledger now stands for -500 there: the INSERT
  branch updates \<^verbatim>\<open>NEW.account_id\<close> only, and the statements on
  \<^verbatim>\<open>to_account_id\<close> are in the UPDATE branch alone.
\<close>

theorem insert_settled_transfer_breaks_invariant:
  "consistent (two_accounts 0 0) \<and>
   (case insert_transaction (ledger_row 10 11 (Some 12) Transfer 500 True) (two_accounts 0 0) of
      Inl e \<Rightarrow> False
    | Inr s \<Rightarrow> \<not> consistent s \<and> balance_of (accounts s) 12 = Some 0
        \<and> ledger_balance (transactions s) 12 = - 500)"
  by (simp add: consistent_def insert_transaction_def eval_defs
     ledger_balance_def settled_primary_def settled_counter_def balance_of_def)

text \<open>
  Claim C3. For every event kind, Insert, Update and Delete, on a transfer entry that
  carries a counter-account, the trigger applies the negation of the settled contribution
  to the counter-account, besides the update of the primary account.

  On the same settled transfer of 500 from 11 to 12: the INSERT event and the DELETE event
  change account 11 and leave account 12 as it was; the UPDATE event that settles the entry
  does both, 11 gains 500 and 12 loses 500. The first revision of the trigger, modelled
  below, adjusts account 12 on all three events.
\<close>

theorem counter_account_only_on_update:
  "update_account_balance (INSERT (ledger_row 10 11 (Some 12) Transfer 500 True))
     [acct 11 0, acct 12 0] = Inr [acct 11 500, acct 12 0]
   \<and> update_account_balance (DELETE (ledger_row 10 11 (Some 12) Transfer 500 True))
     [acct 11 500, acct 12 0] = Inr [acct 11 0, acct 12 0]
   \<and> update_account_balance
       (UPDATE (ledger_row 10 11 (Some 12) Transfer 500 False)
               (ledger_row 10 11 (Some 12) Transfer 500 True))
     [acct 11 0, acct 12 0] = Inr [acct 11 500, acct 12 (- 500)]"
  by (simp add: eval_defs)

subsection \<open>The first revision of the trigger\<close>

text \<open>
  The migration's first revision of \<^verbatim>\<open>public.update_account_balance()\<close>, which the
  rewritten one replaces. It reads the text column \<^verbatim>\<open>status\<close> where the rewritten
  one reads \<^verbatim>\<open>is_paid\<close>, keeps its amounts in \<^verbatim>\<open>DECIMAL(12, 2)\<close> variables (an
  assignment of ten or more integer digits raises "numeric field overflow"; the sums are
  NUMERIC and are checked when stored in the BIGINT column), and handles
  \<^verbatim>\<open>to_account_id\<close> in all three branches.
\<close>

definition numeric_12_2 :: "int \<Rightarrow> error + int" where
  "numeric_12_2 n = (if \<bar>n\<bar> < 10 ^ 10 then Inr n else Inl Numeric_Field_Overflow)"

definition counter_account_update ::
  "txn \<Rightarrow> int \<Rightarrow> account list \<Rightarrow> error + account list" where
  "counter_account_update row v accs =
     (case to_account_id row of
        Some k \<Rightarrow>
          if txn_type row = Transfer
          then update_accounts_set_balance (\<lambda>b. int8 (b - v)) k accs
          else Inr accs
      | None \<Rightarrow> Inr accs)"

fun update_account_balance_by_status ::
  "trigger_event \<Rightarrow> account list \<Rightarrow> error + account list" where
  "update_account_balance_by_status (INSERT new) accs =
     bind_result (if status new = Completed then numeric_12_2 (amount new) else Inr 0)
       (\<lambda>v_new_amount.
     bind_result
       (update_accounts_set_balance (\<lambda>b. int8 (b + v_new_amount)) (account_id new) accs)
       (counter_account_update new v_new_amount))"
| "update_account_balance_by_status (DELETE old) accs =
     bind_result
       (if status old = Completed then bind_result (int8um (amount old)) numeric_12_2 else Inr 0)
       (\<lambda>v_old_amount.
     bind_result
       (update_accounts_set_balance (\<lambda>b. int8 (b + v_old_amount)) (account_id old) accs)
       (counter_account_update old v_old_amount))"
| "update_account_balance_by_status (UPDATE old new) accs =
     bind_result
       (if status old = Completed then bind_result (int8um (amount old)) numeric_12_2 else Inr 0)
       (\<lambda>v_old_amount.
     bind_result (if status new = Completed then numeric_12_2 (amount new) else Inr 0)
       (\<lambda>v_new_amount.
     bind_result
       (if account_id old = account_id new
        then update_accounts_set_balance (\<lambda>b. int8 (b + v_new_amount + v_old_amount))
               (account_id new) accs
        else bind_result
               (update_accounts_set_balance (\<lambda>b. int8 (b + v_old_amount)) (account_id old) accs)
               (update_accounts_set_balance (\<lambda>b. int8 (b + v_new_amount)) (account_id new)))
       (\<lambda>accs1.
     bind_result (counter_account_update old v_old_amount accs1)
       (counter_account_update new v_new_amount))))"

lemma first_revision_adjusts_counter_account:
  "update_account_balance_by_status (INSERT (ledger_row 10 11 (Some 12) Transfer 500 True))
     [acct 11 0, acct 12 0] = Inr [acct 11 500, acct 12 (- 500)]
   \<and> update_account_balance_by_status (DELETE (ledger_row 10 11 (Some 12) Transfer 500 True))
     [acct 11 500, acct 12 (- 500)] = Inr [acct 11 0, acct 12 0]
   \<and> update_account_balance_by_status
       (UPDATE (ledger_row 10 11 (Some 12) Transfer 500 False)
               (ledger_row 10 11 (Some 12) Transfer 500 True))
     [acct 11 0, acct 12 0] = Inr [acct 11 500, acct 12 (- 500)]"
  by (simp add: eval_defs numeric_12_2_def counter_account_update_def)

section \<open>Editing a ledger entry in place\<close>

lemma net_delta_update_reverse:
  "net_delta (UPDATE old new) j + net_delta (UPDATE new old) j = 0"
  by simp

lemma update_round_trip:
  assumes "update_account_balance (UPDATE old new) accs = Inr accs1"
    and "update_account_balance (UPDATE new old) accs1 = Inr accs2"
  shows "accs2 = accs"
proof -
  have "(\<lambda>j. net_delta (UPDATE old new) j + net_delta (UPDATE new old) j) = (\<lambda>j. 0)"
    using net_delta_update_reverse by (intro ext)
  then show ?thesis
    unfolding trigger_accounts [OF assms(2)] trigger_accounts [OF assms(1)] add_to_balances_comp
    by (simp only: add_to_balances_zero)
qed

text \<open>
  Claim C2, as stated: for every Update event that keeps the account reference, the
  trigger changes that account's balance by exactly the new settled amount minus the old
  settled amount. It fails for an entry whose transfer counter-account is the account
  itself: there the two statements on \<^verbatim>\<open>to_account_id\<close> take the same difference
  away again. Editing such a settled entry from 1000 to 1500 leaves the balance as it was.
\<close>

theorem update_self_transfer_counterexample:
  "\<not> (\<forall>old new accs accs' a b.
        account_id old = a \<longrightarrow> account_id new = a \<longrightarrow> balance_of accs a = Some b \<longrightarrow>
        update_account_balance (UPDATE old new) accs = Inr accs' \<longrightarrow>
        balance_of accs' a =
          Some (b + (if is_paid new then amount new else 0) - (if is_paid old then amount old else 0)))"
proof
  assume h: "\<forall>old new accs accs' a b.
        account_id old = a \<longrightarrow> account_id new = a \<longrightarrow> balance_of accs a = Some b \<longrightarrow>
        update_account_balance (UPDATE old new) accs = Inr accs' \<longrightarrow>
        balance_of accs' a =
          Some (b + (if is_paid new then amount new else 0) - (if is_paid old then amount old else 0))"
  have e: "update_account_balance
       (UPDATE (ledger_row 10 11 (Some 11) Transfer 1000 True)
               (ledger_row 10 11 (Some 11) Transfer 1500 True)) [acct 11 0] = Inr [acct 11 0]"
    by (simp add: eval_defs)
  from h have "account_id (ledger_row 10 11 (Some 11) Transfer 1000 True) = 11 \<longrightarrow>
      account_id (ledger_row 10 11 (Some 11) Transfer 1500 True) = 11 \<longrightarrow>
      balance_of [acct 11 0] 11 = Some 0 \<longrightarrow>
      update_account_balance
       (UPDATE (ledger_row 10 11 (Some 11) Transfer 1000 True)
               (ledger_row 10 11 (Some 11) Transfer 1500 True)) [acct 11 0] = Inr [acct 11 0] \<longrightarrow>
      balance_of [acct 11 0] 11 =
        Some (0 + (if is_paid (ledger_row 10 11 (Some 11) Transfer 1500 True)
                   then amount (ledger_row 10 11 (Some 11) Transfer 1500 True) else 0)
                - (if is_paid (ledger_row 10 11 (Some 11) Transfer 1000 True)
                   then amount (ledger_row 10 11 (Some 11) Transfer 1000 True) else 0))"
    by blast
  with e show False
    by (simp add: ledger_row_def acct_def balance_of_def)
qed

text \<open>
  Claim C2, amended: for every Update event that keeps the account reference \<open>a\<close>, on an
  entry that does not name \<open>a\<close> as its transfer counter-account, a trigger run that does
  not raise changes the balance of \<open>a\<close> by exactly (new amount if new is settled, else 0)
  minus (old amount if old is settled, else 0). So settling an entry adds its amount once,
  unsettling it takes it away once, and an edit of a settled amount from 1000 to 1500 adds
  500. The reverse edit restores every balance: there is no drift after a round trip.
\<close>

theorem update_same_account_net_delta:
  assumes "account_id old = a" and "account_id new = a"
    and "\<not> (txn_type old = Transfer \<and> to_account_id old = Some a)"
    and "\<not> (txn_type new = Transfer \<and> to_account_id new = Some a)"
    and "balance_of accs a = Some b"
    and "update_account_balance (UPDATE old new) accs = Inr accs'"
  shows "balance_of accs' a =
           Some (b + (if is_paid new then amount new else 0) - (if is_paid old then amount old else 0))
       \<and> (\<forall>accs''. update_account_balance (UPDATE new old) accs' = Inr accs'' \<longrightarrow> accs'' = accs)"
proof
  have "net_delta (UPDATE old new) a =
      (if is_paid new then amount new else 0) - (if is_paid old then amount old else 0)"
    using assms(1-4) by auto
  then show "balance_of accs' a =
           Some (b + (if is_paid new then amount new else 0) - (if is_paid old then amount old else 0))"
    unfolding trigger_net_delta [OF assms(6)] assms(5) by simp
next
  show "\<forall>accs''. update_account_balance (UPDATE new old) accs' = Inr accs'' \<longrightarrow> accs'' = accs"
    using update_round_trip [OF assms(6)] by blast
qed

theorem update_same_account_net_delta_witness:
  "update_account_balance
     (UPDATE (ledger_row 10 11 None Expense 1000 True) (ledger_row 10 11 None Expense 1500 True))
     [acct 11 0, acct 12 0] = Inr [acct 11 500, acct 12 0]
   \<and> balance_of [acct 11 500, acct 12 0] 11 = Some (0 + 1500 - 1000)
   \<and> update_account_balance
     (UPDATE (ledger_row 10 11 None Expense 1500 True) (ledger_row 10 11 None Expense 1000 True))
     [acct 11 500, acct 12 0] = Inr [acct 11 0, acct 12 0]"
  using update_same_account_net_delta
    [of "ledger_row 10 11 None Expense 1000 True" 11 "ledger_row 10 11 None Expense 1500 True"
        "[acct 11 0, acct 12 0]" 0 "[acct 11 500, acct 12 0]"]
  by (simp add: eval_defs balance_of_def)

section \<open>Bank reconciliation\<close>

text \<open>
  \<^verbatim>\<open>reconcile_transaction\<close> updates rows of \<^verbatim>\<open>transactions\<close>. The migration that
  adds the reconciliation columns and the table \<^verbatim>\<open>audit_log\<close> also declares, besides
  the balance trigger, a row trigger that validates before the write and one that audits
  after it, on \<^verbatim>\<open>transactions\<close> and on \<^verbatim>\<open>accounts\<close>. The UPDATE of this section
  runs all of them.
\<close>

subsection \<open>The validation trigger\<close>

text \<open>
  \<^verbatim>\<open>validate_transaction()\<close>, fired \<^verbatim>\<open>BEFORE INSERT OR UPDATE\<close> for each row, so
  that its test on \<^verbatim>\<open>TG_OP\<close> is always true. The \<^verbatim>\<open>EXISTS\<close> looks for an account
  with the row's \<^verbatim>\<open>account_id\<close>, not of type credit, whose balance covers
  \<^verbatim>\<open>ABS(NEW.amount)\<close>; the conditions are tried in their order, and for an account that
  is not of type credit the \<^verbatim>\<open>CASE\<close> adds 0. The handler
  \<^verbatim>\<open>WHEN OTHERS\<close> logs and raises the same error again.
\<close>

fun covering_account_exists :: "txn \<Rightarrow> account list \<Rightarrow> error + bool" where
  "covering_account_exists new [] = Inr False"
| "covering_account_exists new (a # as) =
     (if acc_id a = account_id new \<and> acc_type a \<noteq> Credit
      then bind_result (int8pl (balance a) 0) (\<lambda>funds.
           bind_result (int8abs (amount new)) (\<lambda>needed.
           if needed \<le> funds then Inr True else covering_account_exists new as))
      else covering_account_exists new as)"

definition validate_transaction :: "txn \<Rightarrow> account list \<Rightarrow> error + txn" where
  "validate_transaction new accs =
     (if txn_type new = Transfer \<and> amount new \<le> 0 then Inl Transfer_Not_Positive
      else if txn_type new = Expense \<or> txn_type new = Transfer
      then bind_result (covering_account_exists new accs) (\<lambda>found.
           if found then Inr new else Inl Insufficient_Balance)
      else Inr new)"

subsection \<open>The audit trigger\<close>

text \<open>
  \<^verbatim>\<open>audit_trigger_function()\<close> on an UPDATE event: \<^verbatim>\<open>NEW\<close> exists, so both
  \<^verbatim>\<open>COALESCE\<close> give its columns, \<^verbatim>\<open>old_values\<close> is NULL and
  \<^verbatim>\<open>new_values\<close> is \<^verbatim>\<open>row_to_json(NEW)\<close>.
\<close>

definition audit_update_row ::
  "session \<Rightarrow> string \<Rightarrow> uuid \<Rightarrow> uuid \<Rightarrow> json_values \<Rightarrow> audit_log_row" where
  "audit_update_row env tg_table_name new_id new_user_id new_json =
     \<lparr>operation = ''UPDATE'', table_name = tg_table_name, record_id = new_id,
      old_values = None, new_values = Some new_json, audit_user_id = new_user_id,
      ip_address = x_real_ip env, audit_timestamp = session_now env\<rparr>"

text \<open>
  \<^verbatim>\<open>UPDATE public.accounts SET balance = f(balance) WHERE id = k\<close> on a database where
  \<^verbatim>\<open>audit_accounts_trigger\<close> stands on the table: every row that the statement
  writes, changed or not, adds its audit record. The state is the table and the log.
\<close>

definition update_accounts_audited ::
  "session \<Rightarrow> (int \<Rightarrow> error + int) \<Rightarrow> uuid \<Rightarrow> account list \<times> audit_log_row list
   \<Rightarrow> error + account list \<times> audit_log_row list" where
  "update_accounts_audited env f k st =
     bind_result (update_accounts_set_balance f k (fst st)) (\<lambda>accs'.
     Inr (accs',
          snd st @ map (\<lambda>a. audit_update_row env ''accounts'' (acc_id a) (acc_user_id a)
                              (Account_Json a))
                       (filter (\<lambda>a. acc_id a = k) accs')))"

subsection \<open>The balance trigger over any accounts table\<close>

text \<open>
  The body of \<^verbatim>\<open>public.update_account_balance()\<close> once more, with its
  \<^verbatim>\<open>UPDATE public.accounts\<close> statement as the parameter \<open>upd\<close>: the same trigger,
  whatever other triggers the statement sets off. With the plain statement it is
  \<open>update_account_balance\<close>.
\<close>

fun update_account_balance_on ::
  "((int \<Rightarrow> error + int) \<Rightarrow> uuid \<Rightarrow> 'st \<Rightarrow> error + 'st) \<Rightarrow> trigger_event \<Rightarrow> 'st \<Rightarrow> error + 'st" where
  "update_account_balance_on upd (INSERT new) st =
     (let v_new_amount = (if is_paid new then amount new else 0) in
      upd (\<lambda>b. int8pl b v_new_amount) (account_id new) st)"
| "update_account_balance_on upd (DELETE old) st =
     bind_result (if is_paid old then int8um (amount old) else Inr 0) (\<lambda>v_old_amount.
     upd (\<lambda>b. int8pl b v_old_amount) (account_id old) st)"
| "update_account_balance_on upd (UPDATE old new) st =
     bind_result (if is_paid old then int8um (amount old) else Inr 0) (\<lambda>v_old_amount.
     let v_new_amount = (if is_paid new then amount new else 0) in
     bind_result
       (if account_id old = account_id new
        then upd (\<lambda>b. bind_result (int8pl b v_new_amount) (\<lambda>x. int8pl x v_old_amount))
               (account_id new) st
        else bind_result
               (upd (\<lambda>b. int8pl b v_old_amount) (account_id old) st)
               (upd (\<lambda>b. int8pl b v_new_amount) (account_id new)))
       (\<lambda>st1.
     bind_result
       (case to_account_id old of
          Some k \<Rightarrow>
            if txn_type old = Transfer
            then upd (\<lambda>b. int8mi b v_old_amount) k st1
            else Inr st1
        | None \<Rightarrow> Inr st1)
       (\<lambda>st2.
       (case to_account_id new of
          Some k \<Rightarrow>
            if txn_type new = Transfer
            then upd (\<lambda>b. int8mi b v_new_amount) k st2
            else Inr st2
        | None \<Rightarrow> Inr st2))))"

lemma update_account_balance_on_plain:
  "update_account_balance_on update_accounts_set_balance ev accs = update_account_balance ev accs"
  by (cases ev) simp_all

text \<open>A log that has only grown, by audit records of UPDATE events.\<close>

definition grown_by_updates :: "audit_log_row list \<Rightarrow> audit_log_row list \<Rightarrow> bool" where
  "grown_by_updates lg lg' \<longleftrightarrow>
     (\<exists>rows. lg' = lg @ rows \<and> list_all (\<lambda>r. operation r = ''UPDATE'') rows)"

lemma grown_refl: "grown_by_updates lg lg"
  by (simp add: grown_by_updates_def)

lemma grown_trans:
  "grown_by_updates a b \<Longrightarrow> grown_by_updates b c \<Longrightarrow> grown_by_updates a c"
  by (auto simp: grown_by_updates_def)

lemma grown_append_update:
  "operation r = ''UPDATE'' \<Longrightarrow> grown_by_updates lg (lg @ [r])"
  by (simp add: grown_by_updates_def)

lemma update_accounts_audited_Inr:
  assumes "update_accounts_audited env f k st = Inr st'"
  shows "update_accounts_set_balance f k (fst st) = Inr (fst st')
       \<and> grown_by_updates (snd st) (snd st')"
  using assms
  by (auto simp: update_accounts_audited_def bind_result_Inr grown_by_updates_def
      list_all_iff audit_update_row_def)

lemma audited_counter_step:
  assumes "(case t of
              Some k \<Rightarrow> if ty = Transfer then update_accounts_audited env f k st else Inr st
            | None \<Rightarrow> Inr st) = Inr st'"
  shows "(case t of
              Some k \<Rightarrow> if ty = Transfer then update_accounts_set_balance f k (fst st)
                        else Inr (fst st)
            | None \<Rightarrow> Inr (fst st)) = Inr (fst st')
       \<and> grown_by_updates (snd st) (snd st')"
  using assms update_accounts_audited_Inr [of env f _ st st']
  by (auto simp: grown_refl split: option.splits if_splits)

text \<open>
  With the audited statement the trigger writes the accounts that the plain trigger
  writes, and the log only grows by records of UPDATE events.
\<close>

lemma audited_trigger_Inr:
  assumes "update_account_balance_on (update_accounts_audited env) ev st = Inr st'"
  shows "update_account_balance ev (fst st) = Inr (fst st')
       \<and> grown_by_updates (snd st) (snd st')"
proof (cases ev)
  case (INSERT new)
  with assms show ?thesis
    by (auto simp: Let_def dest: update_accounts_audited_Inr)
next
  case (DELETE old)
  with assms show ?thesis
    by (auto simp: bind_result_Inr dest: update_accounts_audited_Inr)
next
  case (UPDATE old new)
  define vn where "vn = (if is_paid new then amount new else 0)"
  from assms have
    "bind_result (if is_paid old then int8um (amount old) else Inr 0) (\<lambda>vo.
     bind_result
       (if account_id old = account_id new
        then update_accounts_audited env
               (\<lambda>b. bind_result (int8pl b vn) (\<lambda>x. int8pl x vo)) (account_id new) st
        else bind_result
               (update_accounts_audited env (\<lambda>b. int8pl b vo) (account_id old) st)
               (update_accounts_audited env (\<lambda>b. int8pl b vn) (account_id new)))
       (\<lambda>st1.
     bind_result
       (case to_account_id old of
          Some k \<Rightarrow>
            if txn_type old = Transfer
            then update_accounts_audited env (\<lambda>b. int8mi b vo) k st1
            else Inr st1
        | None \<Rightarrow> Inr st1)
       (\<lambda>st2.
       (case to_account_id new of
          Some k \<Rightarrow>
            if txn_type new = Transfer
            then update_accounts_audited env (\<lambda>b. int8mi b vn) k st2
            else Inr st2
        | None \<Rightarrow> Inr st2)))) = Inr st'"
    unfolding UPDATE vn_def update_account_balance_on.simps Let_def .
  then obtain vo st1 st2 where
    v: "(if is_paid old then int8um (amount old) else Inr 0) = Inr vo" and
    p: "(if account_id old = account_id new
        then update_accounts_audited env
               (\<lambda>b. bind_result (int8pl b vn) (\<lambda>x. int8pl x vo)) (account_id new) st
        else bind_result
               (update_accounts_audited env (\<lambda>b. int8pl b vo) (account_id old) st)
               (update_accounts_audited env (\<lambda>b. int8pl b vn) (account_id new))) = Inr st1" and
    c1: "(case to_account_id old of
            Some k \<Rightarrow> if txn_type old = Transfer
                      then update_accounts_audited env (\<lambda>b. int8mi b vo) k st1 else Inr st1
          | None \<Rightarrow> Inr st1) = Inr st2" and
    c2: "(case to_account_id new of
            Some k \<Rightarrow> if txn_type new = Transfer
                      then update_accounts_audited env (\<lambda>b. int8mi b vn) k st2 else Inr st2
          | None \<Rightarrow> Inr st2) = Inr st'"
    unfolding bind_result_Inr by blast
  have p': "(if account_id old = account_id new
        then update_accounts_set_balance
               (\<lambda>b. bind_result (int8pl b vn) (\<lambda>x. int8pl x vo)) (account_id new) (fst st)
        else bind_result
               (update_accounts_set_balance (\<lambda>b. int8pl b vo) (account_id old) (fst st))
               (update_accounts_set_balance (\<lambda>b. int8pl b vn) (account_id new))) = Inr (fst st1)
      \<and> grown_by_updates (snd st) (snd st1)"
  proof (cases "account_id old = account_id new")
    case True
    with p show ?thesis by (auto dest: update_accounts_audited_Inr)
  next
    case False
    with p obtain st0 where
      a: "update_accounts_audited env (\<lambda>b. int8pl b vo) (account_id old) st = Inr st0" and
      b: "update_accounts_audited env (\<lambda>b. int8pl b vn) (account_id new) st0 = Inr st1"
      by (auto simp: bind_result_Inr)
    from update_accounts_audited_Inr [OF a] update_accounts_audited_Inr [OF b] False
    show ?thesis by (auto simp: bind_result_def intro: grown_trans)
  qed
  note q1 = audited_counter_step [OF c1] and q2 = audited_counter_step [OF c2]
  have "update_account_balance (UPDATE old new) (fst st) = Inr (fst st')"
    unfolding update_account_balance.simps Let_def vn_def [symmetric]
    using v p' q1 q2 by (simp add: bind_result_def)
  moreover have "grown_by_updates (snd st) (snd st')"
    using p' q1 q2 by (blast intro: grown_trans)
  ultimately show ?thesis using UPDATE by simp
qed

subsection \<open>The UPDATE of ledger entries\<close>

text \<open>
  \<^verbatim>\<open>UPDATE transactions SET ... WHERE id = k\<close>, the assignments given as \<open>upd\<close>.
  For every row with that id the new row is validated before it is written; after the
  statement the row triggers run for each written row, in the order of their names:
  \<^verbatim>\<open>audit_transactions_trigger\<close>, then \<^verbatim>\<open>on_transaction_change\<close>.
\<close>

fun validate_rows :: "txn list \<Rightarrow> account list \<Rightarrow> error + unit" where
  "validate_rows [] accs = Inr ()"
| "validate_rows (new # rest) accs =
     bind_result (validate_transaction new accs) (\<lambda>checked. validate_rows rest accs)"

fun after_update_rows ::
  "session \<Rightarrow> (txn \<times> txn) list \<Rightarrow> account list \<times> audit_log_row list
   \<Rightarrow> error + account list \<times> audit_log_row list" where
  "after_update_rows env [] st = Inr st"
| "after_update_rows env ((old, new) # rest) st =
     bind_result
       (update_account_balance_on (update_accounts_audited env) (UPDATE old new)
          (fst st,
           snd st @ [audit_update_row env ''transactions'' (txn_id new) (user_id new)
                       (Transaction_Json new)]))
       (after_update_rows env rest)"

definition update_transactions_by_id ::
  "session \<Rightarrow> (txn \<Rightarrow> txn) \<Rightarrow> uuid \<Rightarrow> db \<Rightarrow> error + db" where
  "update_transactions_by_id env upd k s =
     (let hit = filter (\<lambda>t. txn_id t = k) (transactions s) in
      bind_result (validate_rows (map upd hit) (accounts s)) (\<lambda>checked.
      bind_result
        (after_update_rows env (map (\<lambda>t. (t, upd t)) hit) (accounts s, audit_log s))
        (\<lambda>st.
      Inr (s\<lparr>accounts := fst st,
             transactions := map (\<lambda>t. if txn_id t = k then upd t else t) (transactions s),
             audit_log := snd st\<rparr>))))"

subsection \<open>The function\<close>

definition reconcile_set ::
  "string option \<Rightarrow> timestamptz option \<Rightarrow> timestamptz \<Rightarrow> txn \<Rightarrow> txn" where
  "reconcile_set p_bank_reference p_reconciliation_date now t =
     t\<lparr>bank_reference := p_bank_reference, reconciliation_date := p_reconciliation_date,
       updated_at := now\<rparr>"

definition reconciliation_record ::
  "session \<Rightarrow> uuid \<Rightarrow> string option \<Rightarrow> timestamptz option \<Rightarrow> audit_log_row" where
  "reconciliation_record env p_transaction_id p_bank_reference p_reconciliation_date =
     \<lparr>operation = ''RECONCILIATION'', table_name = ''transactions'',
      record_id = p_transaction_id, old_values = None,
      new_values = Some (Reconciliation_Json p_bank_reference p_reconciliation_date),
      audit_user_id = auth_uid env, ip_address = x_real_ip env,
      audit_timestamp = session_now env\<rparr>"

definition reconcile_transaction ::
  "session \<Rightarrow> uuid \<Rightarrow> string option \<Rightarrow> timestamptz option \<Rightarrow> db \<Rightarrow> error + db" where
  "reconcile_transaction env p_transaction_id p_bank_reference p_reconciliation_date s =
     bind_result
       (update_transactions_by_id env
          (reconcile_set p_bank_reference p_reconciliation_date (session_now env))
          p_transaction_id s)
       (\<lambda>s1.
     Inr (s1\<lparr>audit_log := audit_log s1 @
              [reconciliation_record env p_transaction_id p_bank_reference
                 p_reconciliation_date]\<rparr>))"

lemma net_delta_reconcile_set:
  "net_delta (UPDATE t (reconcile_set r d n t)) j = 0"
  by (simp add: reconcile_set_def)

lemma after_update_rows_frame:
  assumes "after_update_rows env pairs st = Inr st'"
    and "\<And>old new. (old, new) \<in> set pairs \<Longrightarrow> net_delta (UPDATE old new) = (\<lambda>j. 0)"
  shows "fst st' = fst st \<and> grown_by_updates (snd st) (snd st')"
  using assms
proof (induction pairs arbitrary: st)
  case Nil
  then show ?case by (simp add: grown_refl)
next
  case (Cons p pairs)
  obtain old new where p: "p = (old, new)" by (cases p) auto
  let ?st0 = "(fst st, snd st @ [audit_update_row env ''transactions'' (txn_id new)
                       (user_id new) (Transaction_Json new)])"
  from Cons.prems(1) p obtain st1 where
    1: "update_account_balance_on (update_accounts_audited env) (UPDATE old new) ?st0 = Inr st1"
    and 2: "after_update_rows env pairs st1 = Inr st'"
    by (auto simp: bind_result_Inr)
  from audited_trigger_Inr [OF 1] have
    t: "update_account_balance (UPDATE old new) (fst st) = Inr (fst st1)" and
    g: "grown_by_updates (snd ?st0) (snd st1)" by simp_all
  have "net_delta (UPDATE old new) = (\<lambda>j. 0)"
    by (rule Cons.prems(2)) (simp add: p)
  with trigger_accounts [OF t] have same: "fst st1 = fst st"
    by (simp add: add_to_balances_zero)
  have g0: "grown_by_updates (snd st) (snd ?st0)"
    by (simp add: grown_append_update audit_update_row_def)
  have "fst st' = fst st1 \<and> grown_by_updates (snd st1) (snd st')"
    by (rule Cons.IH [OF 2]) (rule Cons.prems(2), simp)
  then have r: "fst st' = fst st1" "grown_by_updates (snd st1) (snd st')" by simp_all
  have "grown_by_updates (snd st) (snd st')"
    by (rule grown_trans [OF g0 grown_trans [OF g r(2)]])
  with same r(1) show ?case by simp
qed

text \<open>
  Claim C8. For every transaction id, \<^verbatim>\<open>reconcile_transaction\<close> sets only the bank
  reference, the reconciliation date and the updated-at instant of the entry and appends
  an audit record. The amount, the settlement flag and the account reference of every
  entry and every account row are unchanged: the balance trigger that its UPDATE fires
  adds a net delta of zero to every balance, old and new amount and flag being equal.
  The audit log only grows: by the records that the audit triggers write for the UPDATE
  events, and last by the record of the reconciliation. (A call that raises, as in the
  validation trigger, commits nothing.)
\<close>

theorem reconcile_transaction_frame:
  assumes "reconcile_transaction env p_id p_ref p_date s = Inr s'"
  shows "accounts s' = accounts s
       \<and> transactions s' =
           map (\<lambda>t. if txn_id t = p_id
                    then t\<lparr>bank_reference := p_ref, reconciliation_date := p_date,
                           updated_at := session_now env\<rparr>
                    else t) (transactions s)
       \<and> map amount (transactions s') = map amount (transactions s)
       \<and> map is_paid (transactions s') = map is_paid (transactions s)
       \<and> map account_id (transactions s') = map account_id (transactions s)
       \<and> (\<exists>lg. grown_by_updates (audit_log s) lg
              \<and> audit_log s' = lg @ [reconciliation_record env p_id p_ref p_date])
       \<and> credit_bills s' = credit_bills s \<and> categories s' = categories s
       \<and> (\<forall>t j. net_delta (UPDATE t (reconcile_set p_ref p_date (session_now env) t)) j = 0)"
proof -
  let ?upd = "reconcile_set p_ref p_date (session_now env)"
  let ?hit = "filter (\<lambda>t. txn_id t = p_id) (transactions s)"
  from assms obtain s1 where
    u: "update_transactions_by_id env ?upd p_id s = Inr s1" and
    s': "s' = s1\<lparr>audit_log := audit_log s1 @ [reconciliation_record env p_id p_ref p_date]\<rparr>"
    by (auto simp: reconcile_transaction_def bind_result_Inr)
  from u obtain st where
    a: "after_update_rows env (map (\<lambda>t. (t, ?upd t)) ?hit) (accounts s, audit_log s) = Inr st" and
    s1: "s1 = s\<lparr>accounts := fst st,
             transactions := map (\<lambda>t. if txn_id t = p_id then ?upd t else t) (transactions s),
             audit_log := snd st\<rparr>"
    by (auto simp: update_transactions_by_id_def Let_def bind_result_Inr)
  have z: "net_delta (UPDATE old new) = (\<lambda>j. 0)"
    if "(old, new) \<in> set (map (\<lambda>t. (t, ?upd t)) ?hit)" for old new
    using that net_delta_reconcile_set by (auto intro!: ext)
  from after_update_rows_frame [OF a z] have
    f: "fst st = accounts s" and g: "grown_by_updates (audit_log s) (snd st)"
    by simp_all
  have lg: "\<exists>lg. grown_by_updates (audit_log s) lg
              \<and> audit_log s' = lg @ [reconciliation_record env p_id p_ref p_date]"
    using g by (intro exI [of _ "snd st"]) (simp add: s' s1)
  show ?thesis
    using lg net_delta_reconcile_set
    by (simp add: s' s1 f reconcile_set_def comp_def)
qed

definition reconcile_example :: db where
  "reconcile_example =
     \<lparr>accounts = [acct 11 7500, acct 12 0],
      transactions = [ledger_row 10 11 None Expense (- 2500) True],
      credit_bills = [], categories = [], audit_log = []\<rparr>"

theorem reconcile_transaction_frame_witness:
  "\<exists>s'. reconcile_transaction \<lparr>session_now = 9, auth_uid = 7, x_real_ip = None\<rparr>
          10 (Some ''BANK-1'') (Some 8) reconcile_example = Inr s'
      \<and> accounts s' = [acct 11 7500, acct 12 0]
      \<and> map amount (transactions s') = [- 2500]
      \<and> map bank_reference (transactions s') = [Some ''BANK-1'']
      \<and> map operation (audit_log s') = [''UPDATE'', ''UPDATE'', ''RECONCILIATION'']"
proof -
  have e: "reconcile_transaction \<lparr>session_now = 9, auth_uid = 7, x_real_ip = None\<rparr>
          10 (Some ''BANK-1'') (Some 8) reconcile_example =
      Inr (reconcile_example
        \<lparr>transactions := [(ledger_row 10 11 None Expense (- 2500) True)
            \<lparr>bank_reference := Some ''BANK-1'', reconciliation_date := Some 8, updated_at := 9\<rparr>],
         audit_log :=
           [audit_update_row \<lparr>session_now = 9, auth_uid = 7, x_real_ip = None\<rparr> ''transactions''
              10 7 (Transaction_Json ((ledger_row 10 11 None Expense (- 2500) True)
                \<lparr>bank_reference := Some ''BANK-1'', reconciliation_date := Some 8,
                  updated_at := 9\<rparr>)),
            audit_update_row \<lparr>session_now = 9, auth_uid = 7, x_real_ip = None\<rparr> ''accounts''
              11 7 (Account_Json (acct 11 7500)),
            reconciliation_record \<lparr>session_now = 9, auth_uid = 7, x_real_ip = None\<rparr>
              10 (Some ''BANK-1'') (Some 8)]\<rparr>)"
    by (simp add: reconcile_transaction_def update_transactions_by_id_def validate_transaction_def
        update_accounts_audited_def reconcile_set_def reconcile_example_def eval_defs)
  from reconcile_transaction_frame [OF e] e show ?thesis
    by (simp add: reconcile_example_def ledger_row_def audit_update_row_def
        reconciliation_record_def)
qed

section \<open>Transfers between accounts\<close>

text \<open>
  The row stored by \<^verbatim>\<open>INSERT INTO public.transactions (user_id, account_id, amount,
  date, description, type, transfer_id, include_in_reports, is_paid)\<close>. The declaration
  of the table is not among the sources: the generated \<^verbatim>\<open>id\<close> and the column default
  of \<^verbatim>\<open>status\<close> are parameters, \<^verbatim>\<open>updated_at\<close> is \<^verbatim>\<open>now()\<close>, and the
  nullable columns that the statement does not name are NULL.
\<close>

definition transfer_leg ::
  "uuid \<Rightarrow> txn_status \<Rightarrow> timestamptz \<Rightarrow> uuid \<Rightarrow> uuid \<Rightarrow> int \<Rightarrow> string \<Rightarrow> string \<Rightarrow> txn_type
   \<Rightarrow> uuid \<Rightarrow> txn" where
  "transfer_leg new_id default_status now p_user_id p_account_id v_amount p_date v_description
     v_type v_transfer_id =
     \<lparr>txn_id = new_id, user_id = p_user_id, account_id = p_account_id, to_account_id = None,
      amount = v_amount, txn_type = v_type, status = default_status, is_paid = True,
      date = p_date, category_id = None, description = v_description,
      transfer_id = Some v_transfer_id, include_in_reports = False, bank_reference = None,
      reconciliation_date = None, updated_at = now\<rparr>"

text \<open>
  \<^verbatim>\<open>public.create_transfer_transaction\<close>. \<open>gen\<close> holds the three identifiers the
  call generates: \<^verbatim>\<open>v_transfer_id := uuid_generate_v4()\<close> and the ids of the two rows.
  The descriptions are the UTF-8 bytes of the source's literals.
\<close>

definition create_transfer_transaction ::
  "session \<Rightarrow> uuid \<times> uuid \<times> uuid \<Rightarrow> txn_status \<Rightarrow> uuid \<Rightarrow> uuid \<Rightarrow> uuid \<Rightarrow> int \<Rightarrow> string \<Rightarrow> db
   \<Rightarrow> error + db" where
  "create_transfer_transaction env gen default_status p_user_id p_from_account_id
     p_to_account_id p_amount p_date s =
     (case gen of (v_transfer_id, id1, id2) \<Rightarrow>
      bind_result (int8abs p_amount) (\<lambda>a.
      bind_result (int8um a) (\<lambda>minus_a.
      bind_result
        (insert_transaction
           (transfer_leg id1 default_status (session_now env) p_user_id p_from_account_id minus_a
              p_date (''Transfer'' @ [CHR 0xC3, CHR 0xAA] @ ''ncia enviada'') Expense v_transfer_id) s)
        (\<lambda>s1.
      bind_result (int8abs p_amount) (\<lambda>a'.
      insert_transaction
        (transfer_leg id2 default_status (session_now env) p_user_id p_to_account_id a'
           p_date (''Transfer'' @ [CHR 0xC3, CHR 0xAA] @ ''ncia recebida'') Income v_transfer_id) s1)))))"

lemma insert_transaction_Inr:
  assumes "insert_transaction row s = Inr s'"
  shows "accounts s' = add_to_balances (net_delta (INSERT row)) (accounts s)
       \<and> transactions s' = transactions s @ [row]
       \<and> credit_bills s' = credit_bills s \<and> categories s' = categories s
       \<and> audit_log s' = audit_log s"
proof -
  from assms obtain accs where
    t: "update_account_balance (INSERT row) (accounts s) = Inr accs" and
    s': "s' = s\<lparr>accounts := accs, transactions := transactions s @ [row]\<rparr>"
    by (auto simp: insert_transaction_def bind_result_Inr)
  show ?thesis unfolding s' using trigger_accounts [OF t] by simp
qed

text \<open>
  Claim C4. For all distinct accounts A and B and every positive amount m in cents,
  \<^verbatim>\<open>create_transfer_transaction\<close> decreases the balance of A by exactly m and
  increases the balance of B by exactly m. It inserts an expense leg of -m on A and an
  income leg of m on B, both settled at once and both carrying the same transfer id, and
  the balances change only through the trigger of the two ordinary inserts.
  (A call that raises, for a balance that would leave the BIGINT range, commits nothing.)
\<close>

theorem create_transfer_moves_amount:
  assumes "p_from \<noteq> p_to" and "0 < m"
    and "balance_of (accounts s) p_from = Some bf"
    and "balance_of (accounts s) p_to = Some bt"
    and "create_transfer_transaction env (tid, id1, id2) dst u p_from p_to m d s = Inr s'"
  shows "balance_of (accounts s') p_from = Some (bf - m)
       \<and> balance_of (accounts s') p_to = Some (bt + m)
       \<and> (\<exists>leg1 leg2.
            transactions s' = transactions s @ [leg1, leg2]
          \<and> account_id leg1 = p_from \<and> amount leg1 = - m \<and> txn_type leg1 = Expense \<and> is_paid leg1
          \<and> account_id leg2 = p_to \<and> amount leg2 = m \<and> txn_type leg2 = Income \<and> is_paid leg2
          \<and> transfer_id leg1 = Some tid \<and> transfer_id leg2 = Some tid
          \<and> bind_result (insert_transaction leg1 s) (insert_transaction leg2) = Inr s'
          \<and> accounts s' =
              add_to_balances (\<lambda>j. net_delta (INSERT leg1) j + net_delta (INSERT leg2) j) (accounts s))"
proof -
  define leg1 where "leg1 = transfer_leg id1 dst (session_now env) u p_from (- m)
              d (''Transfer'' @ [CHR 0xC3, CHR 0xAA] @ ''ncia enviada'') Expense tid"
  define leg2 where "leg2 = transfer_leg id2 dst (session_now env) u p_to m
              d (''Transfer'' @ [CHR 0xC3, CHR 0xAA] @ ''ncia recebida'') Income tid"
  have abs: "\<bar>m\<bar> = m" using assms(2) by simp
  from assms(5) obtain s1 where
    1: "insert_transaction leg1 s = Inr s1" and
    2: "insert_transaction leg2 s1 = Inr s'"
    unfolding create_transfer_transaction_def leg1_def leg2_def
    by (auto simp: bind_result_Inr int8abs_def int8um_def int8_Inr abs)
  note i1 = insert_transaction_Inr [OF 1] and i2 = insert_transaction_Inr [OF 2]
  have acc: "accounts s' =
      add_to_balances (\<lambda>j. net_delta (INSERT leg1) j + net_delta (INSERT leg2) j) (accounts s)"
    using i1 i2 by (simp add: add_to_balances_comp)
  have f: "balance_of (accounts s') p_from = Some (bf - m)"
    unfolding acc balance_of_add_to_balances assms(3)
    using assms(1) by (simp add: leg1_def leg2_def transfer_leg_def)
  have t: "balance_of (accounts s') p_to = Some (bt + m)"
    unfolding acc balance_of_add_to_balances assms(4)
    using assms(1) by (simp add: leg1_def leg2_def transfer_leg_def)
  have legs: "transactions s' = transactions s @ [leg1, leg2]"
    using i1 i2 by simp
  have b: "bind_result (insert_transaction leg1 s) (insert_transaction leg2) = Inr s'"
    using 1 2 by (simp add: bind_result_def)
  have "transactions s' = transactions s @ [leg1, leg2]
          \<and> account_id leg1 = p_from \<and> amount leg1 = - m \<and> txn_type leg1 = Expense \<and> is_paid leg1
          \<and> account_id leg2 = p_to \<and> amount leg2 = m \<and> txn_type leg2 = Income \<and> is_paid leg2
          \<and> transfer_id leg1 = Some tid \<and> transfer_id leg2 = Some tid
          \<and> bind_result (insert_transaction leg1 s) (insert_transaction leg2) = Inr s'
          \<and> accounts s' =
              add_to_balances (\<lambda>j. net_delta (INSERT leg1) j + net_delta (INSERT leg2) j) (accounts s)"
    using legs b acc by (simp add: leg1_def leg2_def transfer_leg_def)
  then show ?thesis using f t by blast
qed

theorem create_transfer_moves_amount_witness:
  "\<exists>s'. create_transfer_transaction \<lparr>session_now = 9, auth_uid = 7, x_real_ip = None\<rparr>
           (30, 31, 32) Completed 7 11 12 500 ''2025-03-10'' (two_accounts 10000 0) = Inr s'
      \<and> balance_of (accounts s') 11 = Some 9500
      \<and> balance_of (accounts s') 12 = Some 500
      \<and> map amount (transactions s') = [- 500, 500]"
proof -
  have "\<exists>s'. create_transfer_transaction \<lparr>session_now = 9, auth_uid = 7, x_real_ip = None\<rparr>
           (30, 31, 32) Completed 7 11 12 500 ''2025-03-10'' (two_accounts 10000 0) = Inr s'"
    by (simp add: create_transfer_transaction_def insert_transaction_def transfer_leg_def eval_defs)
  then obtain s' where
    r: "create_transfer_transaction \<lparr>session_now = 9, auth_uid = 7, x_real_ip = None\<rparr>
           (30, 31, 32) Completed 7 11 12 500 ''2025-03-10'' (two_accounts 10000 0) = Inr s'" ..
  have "balance_of (accounts (two_accounts 10000 0)) 11 = Some 10000"
       "balance_of (accounts (two_accounts 10000 0)) 12 = Some 0"
    by (simp_all add: eval_defs balance_of_def)
  from create_transfer_moves_amount [OF _ _ this r] r show ?thesis
    by (auto simp: two_accounts_def)
qed

section \<open>The billing-cycle job\<close>

text \<open>
  \<^verbatim>\<open>UPDATE public.credit_bills SET status = 'closed', updated_at = now()
  WHERE account_id = k AND status = 'open' AND closing_date <= v_today\<close>.
\<close>

definition close_due_bills ::
  "uuid \<Rightarrow> pg_date \<Rightarrow> timestamptz \<Rightarrow> credit_bill list \<Rightarrow> credit_bill list" where
  "close_due_bills k v_today now bills =
     map (\<lambda>b. if bill_account_id b = k \<and> bill_status b = Open \<and> date_le (closing_date b) v_today
              then b\<lparr>bill_status := Closed, bill_updated_at := now\<rparr> else b) bills"

text \<open>
  The row of the \<^verbatim>\<open>INSERT INTO public.credit_bills\<close>: the three dates as the loop
  body computes them from \<^verbatim>\<open>v_today\<close> and the account's closing day \<open>cd\<close> and due
  day \<open>dd\<close>; the columns the statement does not name take their defaults.
\<close>

definition next_bill ::
  "pg_date \<Rightarrow> timestamptz \<Rightarrow> uuid \<Rightarrow> uuid \<Rightarrow> int \<Rightarrow> int \<Rightarrow> credit_bill" where
  "next_bill v_today now a_id a_user_id cd dd =
     (let v_closing_date0 = date_pl_days (date_trunc_month v_today) (cd - 1);
          v_closing_date = (if date_less v_closing_date0 v_today
                            then date_pl_months v_closing_date0 1 else v_closing_date0);
          v_start_date = date_pl_days (date_pl_months v_closing_date (- 1)) 1;
          v_due_date0 = date_pl_days (date_trunc_month v_closing_date) (dd - 1);
          v_due_date = (if dd \<le> cd then date_pl_months v_due_date0 1 else v_due_date0)
      in \<lparr>bill_user_id = a_user_id, bill_account_id = a_id, bill_status = Open,
          start_date = v_start_date, closing_date = v_closing_date, due_date = v_due_date,
          total_amount = 0, paid_amount = 0, bill_created_at = now, bill_updated_at = now\<rparr>)"

text \<open>\<^verbatim>\<open>INSERT ... ON CONFLICT (account_id, closing_date) DO NOTHING\<close>.\<close>

definition insert_bill_on_conflict_do_nothing ::
  "credit_bill \<Rightarrow> credit_bill list \<Rightarrow> credit_bill list" where
  "insert_bill_on_conflict_do_nothing new bills =
     (if list_ex (\<lambda>b. bill_account_id b = bill_account_id new
                      \<and> closing_date b = closing_date new) bills
      then bills else bills @ [new])"

text \<open>
  \<^verbatim>\<open>public.manage_credit_bills()\<close>: the loop over the accounts of type credit whose
  closing day and due day are not NULL, in the order of the table.
  \<^verbatim>\<open>v_today := current_date\<close> and \<^verbatim>\<open>now()\<close> are parameters.
\<close>

fun manage_credit_bills_loop ::
  "pg_date \<Rightarrow> timestamptz \<Rightarrow> account list \<Rightarrow> credit_bill list \<Rightarrow> credit_bill list" where
  "manage_credit_bills_loop v_today now [] bills = bills"
| "manage_credit_bills_loop v_today now (credit_account # rest) bills =
     (case (acc_closing_date credit_account, acc_due_date credit_account) of
        (Some cd, Some dd) \<Rightarrow>
          if acc_type credit_account = Credit
          then manage_credit_bills_loop v_today now rest
                 (insert_bill_on_conflict_do_nothing
                    (next_bill v_today now (acc_id credit_account) (acc_user_id credit_account) cd dd)
                    (close_due_bills (acc_id credit_account) v_today now bills))
          else manage_credit_bills_loop v_today now rest bills
      | _ \<Rightarrow> manage_credit_bills_loop v_today now rest bills)"

definition manage_credit_bills :: "pg_date \<Rightarrow> timestamptz \<Rightarrow> db \<Rightarrow> db" where
  "manage_credit_bills v_today now s =
     s\<lparr>credit_bills := manage_credit_bills_loop v_today now (accounts s) (credit_bills s)\<rparr>"

definition credit_card :: "uuid \<Rightarrow> int \<Rightarrow> int \<Rightarrow> account" where
  "credit_card k cd dd = \<lparr>acc_id = k, acc_user_id = 7, acc_type = Credit, balance = 0,
     acc_closing_date = Some cd, acc_due_date = Some dd\<rparr>"

definition one_card :: "int \<Rightarrow> int \<Rightarrow> db" where
  "one_card cd dd = \<lparr>accounts = [credit_card 21 cd dd], transactions = [], credit_bills = [],
     categories = [], audit_log = []\<rparr>"

lemmas job_defs = manage_credit_bills_def next_bill_def close_due_bills_def
  insert_bill_on_conflict_do_nothing_def credit_card_def one_card_def date_pl_days_def
  days_in_month_def is_leap_year_def date_le_def


lemma days_in_month_ge_28: "28 \<le> days_in_month y m"
  by (simp add: days_in_month_def)

lemma funpow_next_day:
  "d + n \<le> 28 \<Longrightarrow> (next_day ^^ n) (Date y m d) = Date y m (d + n)"
proof (induction n arbitrary: d)
  case 0
  then show ?case by simp
next
  case (Suc n)
  have "d < days_in_month y m"
    using Suc.prems days_in_month_ge_28 [of y m] by linarith
  then have "next_day (Date y m d) = Date y m (d + 1)" by simp
  moreover have "(next_day ^^ n) (Date y m (d + 1)) = Date y m (d + 1 + n)"
    using Suc.prems by (intro Suc.IH) simp
  ultimately show ?case by (simp add: funpow_swap1)
qed

lemma date_pl_days_within:
  "0 \<le> k \<Longrightarrow> d + nat k \<le> 28 \<Longrightarrow> date_pl_days (Date y m d) k = Date y m (d + nat k)"
  by (simp add: date_pl_days_def funpow_next_day)

definition next_month :: "int \<Rightarrow> nat \<Rightarrow> nat \<Rightarrow> pg_date" where
  "next_month y m d = (if m = 12 then Date (y + 1) 1 d else Date y (m + 1) d)"

lemma date_pl_months_eq:
  assumes "(y * 12 + (int m - 1) + k) div 12 = y'"
    and "nat ((y * 12 + (int m - 1) + k) mod 12) + 1 = m'"
    and "d \<le> 28"
  shows "date_pl_months (Date y m d) k = Date y' m' d"
proof -
  have "min d (days_in_month y' m') = d"
    using assms(3) days_in_month_ge_28 [of y' m'] by simp
  then show ?thesis
    unfolding date_pl_months.simps Let_def assms(1) assms(2) by simp
qed

declare date_pl_months.simps [simp del]

lemma date_pl_months_next:
  assumes "1 \<le> m" "m \<le> 12" "d \<le> 28"
  shows "date_pl_months (Date y m d) 1 = next_month y m d"
proof (cases "m = 12")
  case True
  have "(y * 12 + (int m - 1) + 1) div 12 = y + 1"
    and "nat ((y * 12 + (int m - 1) + 1) mod 12) + 1 = 1"
    using True by simp_all
  from date_pl_months_eq [OF this assms(3)] True show ?thesis
    by (simp add: next_month_def)
next
  case False
  with assms have m: "int m < 12" "1 \<le> int m" by simp_all
  have a: "(y * 12 + (int m - 1) + 1) div 12 = y"
    using m by presburger
  have "(y * 12 + (int m - 1) + 1) mod 12 = int m"
    using m by presburger
  then have b: "nat ((y * 12 + (int m - 1) + 1) mod 12) + 1 = m + 1" by simp
  from date_pl_months_eq [OF a b assms(3)] False show ?thesis
    by (simp add: next_month_def)
qed

lemma date_pl_months_prev:
  assumes "1 \<le> m" "m \<le> 12" "d \<le> 28"
  shows "date_pl_months (next_month y m d) (- 1) = Date y m d"
proof (cases "m = 12")
  case True
  have a: "((y + 1) * 12 + (int 1 - 1) + - 1) div 12 = y"
    by presburger
  have "((y + 1) * 12 + (int 1 - 1) + - 1) mod 12 = 11"
    by presburger
  then have b: "nat (((y + 1) * 12 + (int 1 - 1) + - 1) mod 12) + 1 = 12" by simp
  from date_pl_months_eq [OF a b assms(3)] True show ?thesis
    by (simp add: next_month_def)
next
  case False
  with assms have m: "int m < 12" "1 \<le> int m" by simp_all
  have a: "(y * 12 + (int (m + 1) - 1) + - 1) div 12 = y"
    using m by presburger
  have "(y * 12 + (int (m + 1) - 1) + - 1) mod 12 = int m - 1"
    using m by presburger
  then have b: "nat ((y * 12 + (int (m + 1) - 1) + - 1) mod 12) + 1 = m"
    using m by simp
  from date_pl_months_eq [OF a b assms(3)] False show ?thesis
    by (simp add: next_month_def)
qed

lemma date_trunc_next_month: "date_trunc_month (next_month y m d) = next_month y m 1"
  by (simp add: next_month_def)

lemma date_pl_days_next_month:
  "0 \<le> k \<Longrightarrow> d + nat k \<le> 28 \<Longrightarrow> date_pl_days (next_month y m d) k = next_month y m (d + nat k)"
  by (simp add: next_month_def date_pl_days_within)

lemma next_month_after: "m \<le> 12 \<Longrightarrow> date_less (Date y m d) (next_month y m d')"
  by (simp add: next_month_def)

lemma date_less_irrefl: "\<not> date_less a a"
  by (cases a) simp

lemma date_less_asym: "date_less a b \<Longrightarrow> \<not> date_less b a"
  by (cases a; cases b) auto

lemma next_bill_day_10:
  assumes "1 \<le> m" "m \<le> 12"
  shows "next_bill (Date y m 10) now k u 5 15 =
     \<lparr>bill_user_id = u, bill_account_id = k, bill_status = Open,
       start_date = Date y m 6, closing_date = next_month y m 5, due_date = next_month y m 15,
       total_amount = 0, paid_amount = 0, bill_created_at = now, bill_updated_at = now\<rparr>"
proof -
  have 1: "date_pl_days (date_trunc_month (Date y m 10)) (5 - 1) = Date y m 5"
    using date_pl_days_within [of 4 1 y m] by simp
  have 2: "date_less (Date y m 5) (Date y m 10)" by simp
  have 3: "date_pl_months (Date y m 5) 1 = next_month y m 5"
    using assms by (simp add: date_pl_months_next)
  have 4: "date_pl_days (date_pl_months (next_month y m 5) (- 1)) 1 = Date y m 6"
    using assms date_pl_days_within [of 1 5 y m] by (simp add: date_pl_months_prev)
  have 5: "date_pl_days (date_trunc_month (next_month y m 5)) (15 - 1) = next_month y m 15"
    using date_pl_days_next_month [of 14 1 y m] by (simp add: date_trunc_next_month)
  show ?thesis
    unfolding next_bill_def Let_def 1 using 2 3 4 5 by simp
qed

lemma close_due_bills_none_open:
  assumes "list_all (\<lambda>b. bill_account_id b = k \<longrightarrow> bill_status b \<noteq> Open) bills"
  shows "close_due_bills k v_today now bills = bills"
  using assms by (induction bills) (auto simp: close_due_bills_def)

lemma step_keeps_cycle:
  assumes "list_ex (\<lambda>b. bill_account_id b = k \<and> closing_date b = c) bills"
  shows "list_ex (\<lambda>b. bill_account_id b = k \<and> closing_date b = c)
           (insert_bill_on_conflict_do_nothing new (close_due_bills j v_today now bills))"
proof -
  from assms obtain b where b: "b \<in> set bills" "bill_account_id b = k" "closing_date b = c"
    by (auto simp: list_ex_iff)
  let ?b' = "if bill_account_id b = j \<and> bill_status b = Open \<and> date_le (closing_date b) v_today
              then b\<lparr>bill_status := Closed, bill_updated_at := now\<rparr> else b"
  have "?b' \<in> set (close_due_bills j v_today now bills)"
    using b(1) by (simp add: close_due_bills_def)
  moreover have "bill_account_id ?b' = k \<and> closing_date ?b' = c" using b(2,3) by simp
  ultimately have "list_ex (\<lambda>b. bill_account_id b = k \<and> closing_date b = c)
      (close_due_bills j v_today now bills)"
    unfolding list_ex_iff by blast
  then show ?thesis
    by (auto simp: insert_bill_on_conflict_do_nothing_def list_ex_iff)
qed

lemma step_adds_cycle:
  "list_ex (\<lambda>b. bill_account_id b = bill_account_id new \<and> closing_date b = closing_date new)
     (insert_bill_on_conflict_do_nothing new bills)"
  by (auto simp: insert_bill_on_conflict_do_nothing_def list_ex_iff)

lemma loop_keeps_cycle:
  assumes "list_ex (\<lambda>b. bill_account_id b = k \<and> closing_date b = c) bills"
  shows "list_ex (\<lambda>b. bill_account_id b = k \<and> closing_date b = c)
           (manage_credit_bills_loop v_today now as bills)"
  using assms
proof (induction as arbitrary: bills)
  case Nil
  then show ?case by simp
next
  case (Cons a as)
  then show ?case
    by (auto split: option.splits intro!: Cons.IH step_keeps_cycle)
qed

lemma next_bill_account: "bill_account_id (next_bill v_today now k u cd dd) = k"
  by (simp add: next_bill_def Let_def)

lemma loop_processes_every_account:
  assumes "a \<in> set as" and "acc_type a = Credit"
    and "acc_closing_date a = Some cd" and "acc_due_date a = Some dd"
  shows "list_ex (\<lambda>b. bill_account_id b = acc_id a
            \<and> closing_date b = closing_date (next_bill v_today now (acc_id a) (acc_user_id a) cd dd))
           (manage_credit_bills_loop v_today now as bills)"
  using assms(1)
proof (induction as arbitrary: bills)
  case Nil
  then show ?case by simp
next
  case (Cons x as)
  show ?case
  proof (cases "x = a")
    case True
    have "list_ex (\<lambda>b. bill_account_id b = acc_id a
            \<and> closing_date b = closing_date (next_bill v_today now (acc_id a) (acc_user_id a) cd dd))
          (insert_bill_on_conflict_do_nothing
             (next_bill v_today now (acc_id a) (acc_user_id a) cd dd)
             (close_due_bills (acc_id a) v_today now bills))"
      using step_adds_cycle [of "next_bill v_today now (acc_id a) (acc_user_id a) cd dd"]
      by (simp add: next_bill_account)
    from loop_keeps_cycle [OF this] True assms(2-4) show ?thesis by simp
  next
    case False
    with Cons.prems have "a \<in> set as" by simp
    from Cons.IH [OF this] show ?thesis
      by (auto split: option.splits)
  qed
qed

subsection \<open>The job with PostgreSQL's range errors\<close>

text \<open>
  The date arithmetic of the loop body can raise, and the function has no exception
  block: an error in one account's computation ends the call and undoes the whole pass.
  \<open>manage_credit_bills\<close> above is the pass as it goes when nothing raises;
  \<open>manage_credit_bills_or_raise\<close> is the function with the errors.

  \<^item> \<^verbatim>\<open>credit_account.closing_date - 1\<close> and \<^verbatim>\<open>credit_account.due_date - 1\<close> are
    INTEGER subtractions (the declaration of \<^verbatim>\<open>accounts\<close> is not among the sources;
    the two columns hold whole numbers and are taken as INTEGER): outside
    \<open>-2^31 .. 2^31 - 1\<close> they raise "integer out of range".
  \<^item> \<^verbatim>\<open>date_trunc\<close> and every sum of a date and an interval give a timestamp, which
    must lie between 4714-11-24 BC (year \<open>-4713\<close> as the calendar type counts) and the
    end of the year 294276, or "timestamp out of range" is raised.
\<close>

definition int4 :: "int \<Rightarrow> error + int" where
  "int4 n = (if - (2 ^ 31) \<le> n \<and> n < 2 ^ 31 then Inr n else Inl Integer_Out_Of_Range)"

definition timestamp_range :: "pg_date \<Rightarrow> bool" where
  "timestamp_range d \<longleftrightarrow> date_le (Date (- 4713) 11 24) d \<and> date_le d (Date 294276 12 31)"

definition timestamp_in :: "pg_date \<Rightarrow> error + pg_date" where
  "timestamp_in d = (if timestamp_range d then Inr d else Inl Timestamp_Out_Of_Range)"

definition next_bill_or_raise ::
  "pg_date \<Rightarrow> timestamptz \<Rightarrow> uuid \<Rightarrow> uuid \<Rightarrow> int \<Rightarrow> int \<Rightarrow> error + credit_bill" where
  "next_bill_or_raise v_today now a_id a_user_id cd dd =
     bind_result (timestamp_in v_today) (\<lambda>today_ts.
     bind_result (timestamp_in (date_trunc_month today_ts)) (\<lambda>month_start.
     bind_result (int4 (cd - 1)) (\<lambda>n.
     bind_result (timestamp_in (date_pl_days month_start n)) (\<lambda>v_closing_date0.
     bind_result (if date_less v_closing_date0 v_today
                  then timestamp_in (date_pl_months v_closing_date0 1)
                  else Inr v_closing_date0) (\<lambda>v_closing_date.
     bind_result (timestamp_in (date_pl_months v_closing_date (- 1))) (\<lambda>month_before.
     bind_result (timestamp_in (date_pl_days month_before 1)) (\<lambda>v_start_date.
     bind_result (timestamp_in (date_trunc_month v_closing_date)) (\<lambda>closing_month_start.
     bind_result (int4 (dd - 1)) (\<lambda>k.
     bind_result (timestamp_in (date_pl_days closing_month_start k)) (\<lambda>v_due_date0.
     bind_result (if dd \<le> cd
                  then timestamp_in (date_pl_months v_due_date0 1)
                  else Inr v_due_date0) (\<lambda>v_due_date.
     Inr \<lparr>bill_user_id = a_user_id, bill_account_id = a_id, bill_status = Open,
          start_date = v_start_date, closing_date = v_closing_date, due_date = v_due_date,
          total_amount = 0, paid_amount = 0, bill_created_at = now,
          bill_updated_at = now\<rparr>)))))))))))"

fun manage_credit_bills_loop_or_raise ::
  "pg_date \<Rightarrow> timestamptz \<Rightarrow> account list \<Rightarrow> credit_bill list \<Rightarrow> error + credit_bill list" where
  "manage_credit_bills_loop_or_raise v_today now [] bills = Inr bills"
| "manage_credit_bills_loop_or_raise v_today now (credit_account # rest) bills =
     (case (acc_closing_date credit_account, acc_due_date credit_account) of
        (Some cd, Some dd) \<Rightarrow>
          if acc_type credit_account = Credit
          then bind_result
                 (next_bill_or_raise v_today now (acc_id credit_account)
                    (acc_user_id credit_account) cd dd)
                 (\<lambda>new_bill.
                   manage_credit_bills_loop_or_raise v_today now rest
                     (insert_bill_on_conflict_do_nothing new_bill
                        (close_due_bills (acc_id credit_account) v_today now bills)))
          else manage_credit_bills_loop_or_raise v_today now rest bills
      | _ \<Rightarrow> manage_credit_bills_loop_or_raise v_today now rest bills)"

definition manage_credit_bills_or_raise :: "pg_date \<Rightarrow> timestamptz \<Rightarrow> db \<Rightarrow> error + db" where
  "manage_credit_bills_or_raise v_today now s =
     bind_result (manage_credit_bills_loop_or_raise v_today now (accounts s) (credit_bills s))
       (\<lambda>bills. Inr (s\<lparr>credit_bills := bills\<rparr>))"

lemma int4_Inr: "int4 n = Inr m \<longleftrightarrow> - (2 ^ 31) \<le> n \<and> n < 2 ^ 31 \<and> m = n"
  by (auto simp: int4_def)

lemma timestamp_in_Inr: "timestamp_in d = Inr x \<longleftrightarrow> timestamp_range d \<and> x = d"
  by (auto simp: timestamp_in_def)

text \<open>A computation that does not raise gives the cycle of \<open>next_bill\<close>.\<close>

lemma next_bill_or_raise_Inr:
  assumes "next_bill_or_raise v_today now k u cd dd = Inr nb"
  shows "nb = next_bill v_today now k u cd dd"
  using assms unfolding next_bill_or_raise_def next_bill_def Let_def
  by (auto simp: bind_result_Inr int4_Inr timestamp_in_Inr split: if_splits)

lemma loop_or_raise_Inr:
  assumes "manage_credit_bills_loop_or_raise v_today now as bills = Inr bills'"
  shows "bills' = manage_credit_bills_loop v_today now as bills"
  using assms
proof (induction as arbitrary: bills)
  case Nil
  then show ?case by simp
next
  case (Cons a as)
  then show ?case
    by (auto simp: bind_result_Inr split: option.splits if_splits
        dest!: next_bill_or_raise_Inr)
qed

lemma manage_credit_bills_or_raise_Inr:
  assumes "manage_credit_bills_or_raise v_today now s = Inr s'"
  shows "s' = manage_credit_bills v_today now s"
  using assms loop_or_raise_Inr
  by (auto simp: manage_credit_bills_or_raise_def manage_credit_bills_def bind_result_Inr)

text \<open>A pass that returns has computed the cycle of every account of the loop.\<close>

lemma loop_or_raise_computes_every_account:
  assumes "manage_credit_bills_loop_or_raise v_today now as bills = Inr bills'"
    and "a \<in> set as" and "acc_type a = Credit"
    and "acc_closing_date a = Some cd" and "acc_due_date a = Some dd"
  shows "\<exists>nb. next_bill_or_raise v_today now (acc_id a) (acc_user_id a) cd dd = Inr nb"
  using assms(1,2)
proof (induction as arbitrary: bills)
  case Nil
  then show ?case by simp
next
  case (Cons x as)
  show ?case
  proof (cases "x = a")
    case True
    with Cons.prems(1) assms(3-5) show ?thesis
      by (auto simp: bind_result_Inr)
  next
    case False
    with Cons.prems(2) have in_rest: "a \<in> set as" by simp
    from Cons.prems(1) obtain bills1 where
      "manage_credit_bills_loop_or_raise v_today now as bills1 = Inr bills'"
      by (auto simp: bind_result_Inr split: option.splits if_splits)
    from Cons.IH [OF this in_rest] show ?thesis .
  qed
qed

text \<open>
  On the inputs of the two scenarios above nothing raises: there the function is the
  pass that \<open>manage_credit_bills\<close> describes.
\<close>

lemmas range_defs = manage_credit_bills_or_raise_def next_bill_or_raise_def int4_def
  timestamp_in_def timestamp_range_def bind_result_def

lemma closing_day_runs_return:
  "manage_credit_bills_or_raise (Date 2025 3 10) 100 (one_card 10 20) =
     Inr (manage_credit_bills (Date 2025 3 10) 100 (one_card 10 20))
   \<and> manage_credit_bills_or_raise (Date 2025 3 10) 101
       (manage_credit_bills (Date 2025 3 10) 100 (one_card 10 20)) =
     Inr (manage_credit_bills (Date 2025 3 10) 101
       (manage_credit_bills (Date 2025 3 10) 100 (one_card 10 20)))"
  by (simp add: range_defs job_defs date_pl_months.simps eval_nat_numeral)

lemma timestamp_range_year:
  "0 < y \<Longrightarrow> y < 294276 \<Longrightarrow> timestamp_range (Date y m d)"
  by (simp add: timestamp_range_def date_le_def)

lemma timestamp_range_next_month:
  "0 < y \<Longrightarrow> y < 294276 \<Longrightarrow> timestamp_range (next_month y m d)"
  by (auto simp: timestamp_range_def date_le_def next_month_def)

lemma next_bill_or_raise_day_10:
  assumes "1 \<le> m" "m \<le> 12" "0 < y" "y < 294276"
  shows "next_bill_or_raise (Date y m 10) now k u 5 15 = Inr (next_bill (Date y m 10) now k u 5 15)"
proof -
  have 1: "date_pl_days (Date y m (Suc 0)) 4 = Date y m 5"
    using date_pl_days_within [of 4 1 y m] by simp
  have 3: "date_pl_months (Date y m 5) 1 = next_month y m 5"
    using assms by (simp add: date_pl_months_next)
  have 4: "date_pl_months (next_month y m 5) (- 1) = Date y m 5"
    using assms by (simp add: date_pl_months_prev)
  have d6: "date_pl_days (Date y m 5) 1 = Date y m 6"
    using date_pl_days_within [of 1 5 y m] by simp
  have 5: "date_pl_days (next_month y m (Suc 0)) 14 = next_month y m 15"
    using date_pl_days_next_month [of 14 1 y m] by simp
  show ?thesis
    unfolding next_bill_day_10 [OF assms(1,2)]
    by (simp add: next_bill_or_raise_def timestamp_in_def int4_def bind_result_def
        timestamp_range_year [OF assms(3,4)] timestamp_range_next_month [OF assms(3,4)]
        1 3 4 d6 5 date_trunc_next_month)
qed

lemma day_10_run_returns:
  assumes "1 \<le> m" and "m \<le> 12" and "0 < y" and "y < 294276"
    and "accounts s = [a]" and "acc_type a = Credit"
    and "acc_closing_date a = Some 5" and "acc_due_date a = Some 15"
  shows "manage_credit_bills_or_raise (Date y m 10) now s =
      Inr (manage_credit_bills (Date y m 10) now s)"
  using assms(5-8)
  by (simp add: manage_credit_bills_or_raise_def manage_credit_bills_def
      next_bill_or_raise_day_10 [OF assms(1-4)] bind_result_def)

text \<open>
  Claim C5. For every state of the credit accounts and the stored cycles and every current
  date, running \<^verbatim>\<open>manage_credit_bills\<close> twice in immediate succession produces no
  duplicate cycle and the second run changes nothing in the stored cycles.

  On the closing day itself the second run does change a cycle. One credit account with
  closing day 10 and due day 20, no cycle stored, the job run on 2025-03-10: the first run
  opens the cycle that closes on 2025-03-10 (\<^verbatim>\<open>v_today > v_closing_date\<close> is false, so
  the date is not moved to April); the second run closes that cycle, its closing date
  satisfying \<^verbatim>\<open>closing_date <= v_today\<close>. No duplicate is inserted.
\<close>

theorem second_run_closes_new_cycle:
  "credit_bills (manage_credit_bills (Date 2025 3 10) 100 (one_card 10 20)) =
     [\<lparr>bill_user_id = 7, bill_account_id = 21, bill_status = Open,
       start_date = Date 2025 2 11, closing_date = Date 2025 3 10, due_date = Date 2025 3 20,
       total_amount = 0, paid_amount = 0, bill_created_at = 100, bill_updated_at = 100\<rparr>]
   \<and> credit_bills (manage_credit_bills (Date 2025 3 10) 101
        (manage_credit_bills (Date 2025 3 10) 100 (one_card 10 20))) =
     [\<lparr>bill_user_id = 7, bill_account_id = 21, bill_status = Closed,
       start_date = Date 2025 2 11, closing_date = Date 2025 3 10, due_date = Date 2025 3 20,
       total_amount = 0, paid_amount = 0, bill_created_at = 100, bill_updated_at = 101\<rparr>]"
  by (simp add: job_defs date_pl_months.simps eval_nat_numeral)

text \<open>
  Claim C6, as stated: with closing day 5 and due day 15 and no open cycle, a run on day 10
  of a month creates the cycle from day 6 of the previous month to day 5 of the current
  month. On 2025-03-10 the job creates the cycle from 2025-03-06 to 2025-04-05 instead:
  day 5 of March has passed, so the closing date moves to April.
\<close>

theorem day_10_run_counterexample:
  "credit_bills (manage_credit_bills (Date 2025 3 10) 100 (one_card 5 15)) =
     [\<lparr>bill_user_id = 7, bill_account_id = 21, bill_status = Open,
       start_date = Date 2025 3 6, closing_date = Date 2025 4 5, due_date = Date 2025 4 15,
       total_amount = 0, paid_amount = 0, bill_created_at = 100, bill_updated_at = 100\<rparr>]
   \<and> \<not> list_ex (\<lambda>b. start_date b = Date 2025 2 6 \<and> closing_date b = Date 2025 3 5)
         (credit_bills (manage_credit_bills (Date 2025 3 10) 100 (one_card 5 15)))"
  by (simp add: job_defs date_pl_months.simps eval_nat_numeral)

text \<open>
  Claim C6, amended: for a credit account with closing day 5 and due day 15 that has no
  open cycle and no cycle closing on day 5 of the next month, the only account of the
  table, a run on day 10 of a month creates one open cycle whose start date is day 6 of
  the current month, whose closing date is day 5 of the next month and whose due date is
  day 15 of the next month; a second run on the same day changes nothing.
\<close>

theorem day_10_run_opens_next_cycle:
  assumes "1 \<le> m" and "m \<le> 12" and "0 < y" and "y < 294276"
    and "accounts s = [a]" and "acc_type a = Credit"
    and "acc_closing_date a = Some 5" and "acc_due_date a = Some 15"
    and "list_all (\<lambda>b. bill_account_id b = acc_id a \<longrightarrow>
                        bill_status b \<noteq> Open \<and> closing_date b \<noteq> next_month y m 5)
           (credit_bills s)"
  shows "credit_bills (manage_credit_bills (Date y m 10) now s) =
           credit_bills s @
           [\<lparr>bill_user_id = acc_user_id a, bill_account_id = acc_id a, bill_status = Open,
             start_date = Date y m 6, closing_date = next_month y m 5,
             due_date = next_month y m 15, total_amount = 0, paid_amount = 0,
             bill_created_at = now, bill_updated_at = now\<rparr>]
       \<and> manage_credit_bills (Date y m 10) now' (manage_credit_bills (Date y m 10) now s) =
           manage_credit_bills (Date y m 10) now s"
proof -
  define new where "new = \<lparr>bill_user_id = acc_user_id a, bill_account_id = acc_id a,
             bill_status = Open,
             start_date = Date y m 6, closing_date = next_month y m 5,
             due_date = next_month y m 15, total_amount = 0, paid_amount = 0,
             bill_created_at = now, bill_updated_at = now\<rparr>"
  have nb: "next_bill (Date y m 10) now (acc_id a) (acc_user_id a) 5 15 = new"
    unfolding new_def using next_bill_day_10 [OF assms(1,2)] by simp
  have nb': "bill_account_id (next_bill (Date y m 10) now' (acc_id a) (acc_user_id a) 5 15) = acc_id a"
    "closing_date (next_bill (Date y m 10) now' (acc_id a) (acc_user_id a) 5 15) = next_month y m 5"
    using next_bill_day_10 [OF assms(1,2)] by simp_all
  have new_key: "bill_account_id new = acc_id a" "closing_date new = next_month y m 5"
    "bill_status new = Open"
    by (simp_all add: new_def)
  have open_none: "list_all (\<lambda>b. bill_account_id b = acc_id a \<longrightarrow> bill_status b \<noteq> Open)
      (credit_bills s)"
    using assms(9) by (simp add: list_all_iff)
  have no_conflict: "\<not> list_ex (\<lambda>b. bill_account_id b = acc_id a
      \<and> closing_date b = next_month y m 5) (credit_bills s)"
    using assms(9) by (auto simp: list_all_iff list_ex_iff)
  have first: "manage_credit_bills_loop (Date y m 10) now [a] (credit_bills s) =
      credit_bills s @ [new]"
    using assms(6-8) no_conflict
    by (simp add: nb close_due_bills_none_open [OF open_none]
        insert_bill_on_conflict_do_nothing_def new_key)
  have later: "\<not> date_le (next_month y m 5) (Date y m 10)"
    using assms(2) by (auto simp: next_month_def date_le_def)
  have "close_due_bills (acc_id a) (Date y m 10) now' (credit_bills s @ [new]) =
      close_due_bills (acc_id a) (Date y m 10) now' (credit_bills s) @ [new]"
    using later by (simp add: close_due_bills_def new_key)
  then have close2: "close_due_bills (acc_id a) (Date y m 10) now' (credit_bills s @ [new]) =
      credit_bills s @ [new]"
    by (simp add: close_due_bills_none_open [OF open_none])
  have second: "manage_credit_bills_loop (Date y m 10) now' [a] (credit_bills s @ [new]) =
      credit_bills s @ [new]"
    using assms(6-8)
    by (simp add: close2 insert_bill_on_conflict_do_nothing_def nb' new_key)
  show ?thesis
    using first second assms(5) by (simp add: manage_credit_bills_def new_def)
qed

theorem day_10_run_opens_next_cycle_witness:
  "credit_bills (manage_credit_bills (Date 2025 3 10) 100 (one_card 5 15)) =
     [\<lparr>bill_user_id = 7, bill_account_id = 21, bill_status = Open,
       start_date = Date 2025 3 6, closing_date = Date 2025 4 5, due_date = Date 2025 4 15,
       total_amount = 0, paid_amount = 0, bill_created_at = 100, bill_updated_at = 100\<rparr>]
   \<and> manage_credit_bills (Date 2025 3 10) 101
        (manage_credit_bills (Date 2025 3 10) 100 (one_card 5 15)) =
      manage_credit_bills (Date 2025 3 10) 100 (one_card 5 15)"
  using day_10_run_opens_next_cycle
    [of 3 2025 "one_card 5 15" "credit_card 21 5 15" 100 101]
  by (simp add: one_card_def credit_card_def next_month_def)

text \<open>
  Claim C9, as stated: during a pass every credit account whose day configuration is
  malformed (day 0, or above 31) is skipped with a log entry, and the pass goes on with the
  remaining accounts; one account's bad configuration never aborts the whole pass.

  The job has no check of the day values and no exception block. On 2025-03-10 an account
  with closing day 0 is not skipped: it gets a cycle closing on 2025-03-28, and one with
  closing day 35 a cycle closing on 2025-04-04. And a bad value can abort the pass: with
  a well-formed account followed by one whose closing day is -2147483648 the subtraction
  \<^verbatim>\<open>closing_date - 1\<close> raises, the call ends in "integer out of range" and the
  cycle of the well-formed account is lost with it.
\<close>

definition card_and_bad_card :: db where
  "card_and_bad_card =
     \<lparr>accounts = [credit_card 22 5 15, credit_card 21 (- 2147483648) 15], transactions = [],
      credit_bills = [], categories = [], audit_log = []\<rparr>"

theorem malformed_day_counterexample:
  "manage_credit_bills_or_raise (Date 2025 3 10) 100 (one_card 0 15) =
     Inr ((one_card 0 15)\<lparr>credit_bills :=
       [\<lparr>bill_user_id = 7, bill_account_id = 21, bill_status = Open,
         start_date = Date 2025 3 1, closing_date = Date 2025 3 28, due_date = Date 2025 3 15,
         total_amount = 0, paid_amount = 0, bill_created_at = 100, bill_updated_at = 100\<rparr>]\<rparr>)
   \<and> manage_credit_bills_or_raise (Date 2025 3 10) 100 (one_card 35 15) =
     Inr ((one_card 35 15)\<lparr>credit_bills :=
       [\<lparr>bill_user_id = 7, bill_account_id = 21, bill_status = Open,
         start_date = Date 2025 3 5, closing_date = Date 2025 4 4, due_date = Date 2025 5 15,
         total_amount = 0, paid_amount = 0, bill_created_at = 100, bill_updated_at = 100\<rparr>]\<rparr>)
   \<and> manage_credit_bills_or_raise (Date 2025 3 10) 100 card_and_bad_card =
     Inl Integer_Out_Of_Range"
  by (simp add: range_defs job_defs card_and_bad_card_def date_pl_months.simps eval_nat_numeral)

text \<open>
  Claim C9, amended: during a pass no account is skipped for its day values and nothing is
  logged. In every pass that completes, every credit account that has a closing day and a
  due day, also a day of 0 or above 31, has been processed like any other: its dates were
  computed, and the table holds a cycle of that account for the closing date computed,
  whatever the day values of the other accounts are; the audit log, the accounts and the
  ledger are as they were. The job handles no error: a day value that takes the
  arithmetic out of the integer or timestamp range raises and aborts the whole pass.
\<close>

theorem malformed_days_are_not_skipped:
  assumes "manage_credit_bills_or_raise v_today now s = Inr s'"
    and "a \<in> set (accounts s)" and "acc_type a = Credit"
    and "acc_closing_date a = Some cd" and "acc_due_date a = Some dd"
  shows "(\<exists>nb. next_bill_or_raise v_today now (acc_id a) (acc_user_id a) cd dd = Inr nb
            \<and> list_ex (\<lambda>b. bill_account_id b = acc_id a \<and> closing_date b = closing_date nb)
                 (credit_bills s'))
       \<and> audit_log s' = audit_log s \<and> accounts s' = accounts s
       \<and> transactions s' = transactions s"
proof -
  from assms(1) obtain bills where
    l: "manage_credit_bills_loop_or_raise v_today now (accounts s) (credit_bills s) = Inr bills"
    and s': "s' = s\<lparr>credit_bills := bills\<rparr>"
    by (auto simp: manage_credit_bills_or_raise_def bind_result_Inr)
  from loop_or_raise_computes_every_account [OF l assms(2-5)] obtain nb where
    nb: "next_bill_or_raise v_today now (acc_id a) (acc_user_id a) cd dd = Inr nb" ..
  have "list_ex (\<lambda>b. bill_account_id b = acc_id a \<and> closing_date b = closing_date nb) bills"
    unfolding loop_or_raise_Inr [OF l] next_bill_or_raise_Inr [OF nb]
    by (rule loop_processes_every_account [OF assms(2-5)])
  with nb show ?thesis by (auto simp: s')
qed

definition two_cards :: db where
  "two_cards = \<lparr>accounts = [credit_card 21 0 15, credit_card 22 5 15], transactions = [],
     credit_bills = [], categories = [], audit_log = []\<rparr>"

theorem malformed_days_are_not_skipped_witness:
  "\<exists>s'. manage_credit_bills_or_raise (Date 2025 3 10) 100 two_cards = Inr s'
      \<and> list_ex (\<lambda>b. bill_account_id b = 21 \<and> closing_date b = Date 2025 3 28) (credit_bills s')
      \<and> list_ex (\<lambda>b. bill_account_id b = 22 \<and> closing_date b = Date 2025 4 5) (credit_bills s')
      \<and> audit_log s' = []"
proof -
  have e: "manage_credit_bills_or_raise (Date 2025 3 10) 100 two_cards =
      Inr (manage_credit_bills (Date 2025 3 10) 100 two_cards)"
    by (simp add: range_defs job_defs two_cards_def date_pl_months.simps eval_nat_numeral)
  have n: "next_bill_or_raise (Date 2025 3 10) 100 21 7 0 15 =
      Inr (next_bill (Date 2025 3 10) 100 21 7 0 15)"
    by (simp add: range_defs job_defs date_pl_months.simps eval_nat_numeral)
  have a: "credit_card 21 0 15 \<in> set (accounts two_cards)"
    by (simp add: two_cards_def)
  from malformed_days_are_not_skipped [OF e a, of 0 15]
  have "list_ex (\<lambda>b. bill_account_id b = 21 \<and> closing_date b = Date 2025 3 28)
      (credit_bills (manage_credit_bills (Date 2025 3 10) 100 two_cards))
      \<and> audit_log (manage_credit_bills (Date 2025 3 10) 100 two_cards) = []"
    by (simp add: n credit_card_def two_cards_def)
       (simp add: job_defs date_pl_months.simps eval_nat_numeral)
  moreover have "list_ex (\<lambda>b. bill_account_id b = 22 \<and> closing_date b = Date 2025 4 5)
      (credit_bills (manage_credit_bills (Date 2025 3 10) 100 two_cards))"
    by (simp add: job_defs two_cards_def date_pl_months.simps eval_nat_numeral)
  ultimately show ?thesis using e by (intro exI [of _ "manage_credit_bills (Date 2025 3 10) 100 two_cards"]) simp
qed

section \<open>The analytics report\<close>

text \<open>
  \<^verbatim>\<open>public.get_analytics_report(p_user_id, p_start_date, p_end_date)\<close> of the rewritten
  migration, statement by statement. \<^verbatim>\<open>date\<close> is TEXT and is compared as text; the
  model compares byte by byte, which is the order of every collation on well-formed
  \<^verbatim>\<open>YYYY-MM-DD\<close> strings.
\<close>

fun text_le :: "string \<Rightarrow> string \<Rightarrow> bool" where
  "text_le [] ys = True"
| "text_le (x # xs) [] = False"
| "text_le (x # xs) (y # ys) =
     ((of_char x :: nat) < of_char y \<or> (x = y \<and> text_le xs ys))"

text \<open>A row of \<^verbatim>\<open>temp_cash_flow_txs\<close>: the four columns the temporary table keeps.\<close>

record cash_flow_tx =
  cf_amount :: int
  cf_type :: txn_type
  cf_category_id :: "uuid option"
  cf_date :: string

definition temp_cash_flow_txs :: "uuid \<Rightarrow> string \<Rightarrow> string \<Rightarrow> txn list \<Rightarrow> cash_flow_tx list" where
  "temp_cash_flow_txs p_user_id p_start_date p_end_date ts =
     map (\<lambda>t. \<lparr>cf_amount = amount t, cf_type = txn_type t, cf_category_id = category_id t,
               cf_date = date t\<rparr>)
       (filter (\<lambda>t. user_id t = p_user_id
                  \<and> text_le p_start_date (date t)
                  \<and> text_le (date t) p_end_date
                  \<and> is_paid t
                  \<and> (txn_type t = Income \<or> txn_type t = Expense)
                  \<and> include_in_reports t) ts)"

subsection \<open>Statement 1: totals by type\<close>

text \<open>
  \<^verbatim>\<open>SUM\<close> of BIGINT is NUMERIC and cannot overflow; \<^verbatim>\<open>ABS(amount)\<close> is taken on
  the BIGINT of each expense row and raises for \<open>-2^63\<close>.
\<close>

record totals_by_type =
  income :: int
  expenses :: int

fun sum_abs_expenses :: "cash_flow_tx list \<Rightarrow> error + int" where
  "sum_abs_expenses [] = Inr 0"
| "sum_abs_expenses (t # ts) =
     bind_result (if cf_type t = Expense then int8abs (cf_amount t) else Inr 0) (\<lambda>a.
     bind_result (sum_abs_expenses ts) (\<lambda>r. Inr (a + r)))"

definition v_totals_by_type :: "cash_flow_tx list \<Rightarrow> error + totals_by_type" where
  "v_totals_by_type rows =
     bind_result (sum_abs_expenses rows) (\<lambda>e.
     Inr \<lparr>income = sum_list (map (\<lambda>t. if cf_type t = Income then cf_amount t else 0) rows),
          expenses = e\<rparr>)"

subsection \<open>Statement 2: expenses by category\<close>

text \<open>
  The statement selects \<^verbatim>\<open>(ct.amount / total_expenses.total) * 100\<close>
  \<^verbatim>\<open>FROM category_totals ct, total_expenses te\<close>. The alias \<^verbatim>\<open>te\<close> hides the name
  \<^verbatim>\<open>total_expenses\<close>, so PostgreSQL refuses the statement when the function first
  runs it: "invalid reference to FROM-clause entry for table total_expenses", SQLSTATE
  42P01. That happens before any row is read, whatever the temporary table and the
  categories hold. (The first revision of the function writes \<^verbatim>\<open>te.total\<close>.) The
  record is the object the statement would build for a category.
\<close>

record 'p category_row =
  category :: string
  cat_amount :: int
  cat_transactions :: nat
  fill :: string
  percentage :: 'p

definition v_category_data ::
  "cash_flow_tx list \<Rightarrow> category list \<Rightarrow> error + 'p category_row list" where
  "v_category_data rows cats = Inl Undefined_Table"

subsection \<open>Statement 3: monthly series\<close>

text \<open>
  \<^verbatim>\<open>t.date::date\<close> is PostgreSQL's reading of a date from text, which takes many
  spellings besides \<^verbatim>\<open>YYYY-MM-DD\<close> and raises on the others: it is the parameter
  \<open>date_in\<close>. The groups stand in the order of their first row; the
  \<^verbatim>\<open>ORDER BY\<close> that follows fixes the order of the result.
\<close>

fun dates_of ::
  "(string \<Rightarrow> error + pg_date) \<Rightarrow> cash_flow_tx list \<Rightarrow> error + (pg_date \<times> cash_flow_tx) list" where
  "dates_of date_in [] = Inr []"
| "dates_of date_in (t # ts) =
     bind_result (date_in (cf_date t)) (\<lambda>d.
     bind_result (dates_of date_in ts) (\<lambda>rest. Inr ((date_trunc_month d, t) # rest)))"

text \<open>\<^verbatim>\<open>to_char(month_start, 'YYYY-MM')\<close> and \<^verbatim>\<open>to_char(month_start, 'Mon YYYY')\<close>.\<close>

definition digit_char :: "nat \<Rightarrow> char" where
  "digit_char n = ''0123456789'' ! (n mod 10)"

definition yyyy :: "int \<Rightarrow> string" where
  "yyyy y = (let n = nat y in
     (if 10000 \<le> n then [digit_char (n div 10000)] else []) @
     [digit_char (n div 1000), digit_char (n div 100), digit_char (n div 10), digit_char n])"

definition to_char_yyyy_mm :: "pg_date \<Rightarrow> string" where
  "to_char_yyyy_mm d = yyyy (year d) @ ''-'' @ [digit_char (month d div 10), digit_char (month d)]"

definition to_char_mon_yyyy :: "pg_date \<Rightarrow> string" where
  "to_char_mon_yyyy d =
     ([''Jan'', ''Feb'', ''Mar'', ''Apr'', ''May'', ''Jun'',
       ''Jul'', ''Aug'', ''Sep'', ''Oct'', ''Nov'', ''Dec''] ! (month d - 1)) @ '' '' @ yyyy (year d)"

record monthly_row =
  month_key :: string
  month_name :: string
  month_income :: int
  month_expenses :: int
  month_balance :: int

text \<open>The position of a month on the time line: what \<^verbatim>\<open>ORDER BY month_start\<close> sorts by.\<close>

definition month_index :: "pg_date \<Rightarrow> int" where
  "month_index d = year d * 12 + int (month d)"

definition monthly_totals :: "(pg_date \<times> cash_flow_tx) list \<Rightarrow> (pg_date \<times> int \<times> int) list" where
  "monthly_totals dated =
     map (\<lambda>ms. let grp = map snd (filter (\<lambda>(d, t). d = ms) dated)
                in (ms,
                    sum_list (map (\<lambda>t. if cf_type t = Income then cf_amount t else 0) grp),
                    \<bar>sum_list (map (\<lambda>t. if cf_type t = Expense then cf_amount t else 0) grp)\<bar>))
         (remdups (map fst dated))"

definition ordered_months :: "(pg_date \<times> int \<times> int) list \<Rightarrow> monthly_row list" where
  "ordered_months mt =
     take 12
       (map (\<lambda>(ms, inc, exp).
              \<lparr>month_key = to_char_yyyy_mm ms, month_name = to_char_mon_yyyy ms,
               month_income = inc, month_expenses = exp, month_balance = inc - exp\<rparr>)
            (sort_key (\<lambda>(ms, inc, exp). month_index ms) mt))"

definition v_monthly_data ::
  "(string \<Rightarrow> error + pg_date) \<Rightarrow> cash_flow_tx list \<Rightarrow> error + monthly_row list" where
  "v_monthly_data date_in rows =
     bind_result (dates_of date_in rows) (\<lambda>dated. Inr (ordered_months (monthly_totals dated)))"

subsection \<open>The function\<close>

text \<open>
  The four statements in their order; the first that raises ends the call. Statement 2
  always raises, so statements 3 and 4 are never reached.
\<close>

record 'p analytics_report =
  report_totals :: totals_by_type
  report_categories :: "'p category_row list"
  report_monthly :: "monthly_row list"

definition get_analytics_report ::
  "(string \<Rightarrow> error + pg_date) \<Rightarrow> uuid \<Rightarrow> string \<Rightarrow> string \<Rightarrow> db \<Rightarrow> error + 'p analytics_report" where
  "get_analytics_report date_in p_user_id p_start_date p_end_date s =
     (let rows = temp_cash_flow_txs p_user_id p_start_date p_end_date (transactions s)
      in bind_result (v_totals_by_type rows) (\<lambda>tot.
         bind_result (v_category_data rows (categories s)) (\<lambda>cat.
         bind_result (v_monthly_data date_in rows) (\<lambda>mon.
         Inr \<lparr>report_totals = tot, report_categories = cat, report_monthly = mon\<rparr>))))"

definition income_on :: "uuid \<Rightarrow> string \<Rightarrow> txn" where
  "income_on i d = (ledger_row i 11 None Income 100 True)\<lparr>date := d\<rparr>"

definition thirteen_months :: db where
  "thirteen_months =
     \<lparr>accounts = [acct 11 1300],
      transactions =
        [income_on 1 ''2024-01-15'', income_on 2 ''2024-02-15'', income_on 3 ''2024-03-15'',
         income_on 4 ''2024-04-15'', income_on 5 ''2024-05-15'', income_on 6 ''2024-06-15'',
         income_on 7 ''2024-07-15'', income_on 8 ''2024-08-15'', income_on 9 ''2024-09-15'',
         income_on 10 ''2024-10-15'', income_on 11 ''2024-11-15'', income_on 12 ''2024-12-15'',
         income_on 13 ''2025-01-15''],
      credit_bills = [], categories = [], audit_log = []\<rparr>"

definition cf_income :: "string \<Rightarrow> cash_flow_tx" where
  "cf_income d = \<lparr>cf_amount = 100, cf_type = Income, cf_category_id = None, cf_date = d\<rparr>"

definition thirteen_dated :: "(pg_date \<times> cash_flow_tx) list" where
  "thirteen_dated =
       [(Date 2024 1 1, cf_income ''2024-01-15''), (Date 2024 2 1, cf_income ''2024-02-15''),
        (Date 2024 3 1, cf_income ''2024-03-15''), (Date 2024 4 1, cf_income ''2024-04-15''),
        (Date 2024 5 1, cf_income ''2024-05-15''), (Date 2024 6 1, cf_income ''2024-06-15''),
        (Date 2024 7 1, cf_income ''2024-07-15''), (Date 2024 8 1, cf_income ''2024-08-15''),
        (Date 2024 9 1, cf_income ''2024-09-15''), (Date 2024 10 1, cf_income ''2024-10-15''),
        (Date 2024 11 1, cf_income ''2024-11-15''), (Date 2024 12 1, cf_income ''2024-12-15''),
        (Date 2025 1 1, cf_income ''2025-01-15'')]"

lemma thirteen_months_cash_flow:
  "temp_cash_flow_txs 7 ''2024-01-01'' ''2025-12-31'' (transactions thirteen_months) =
   map cf_income [''2024-01-15'', ''2024-02-15'', ''2024-03-15'', ''2024-04-15'', ''2024-05-15'',
     ''2024-06-15'', ''2024-07-15'', ''2024-08-15'', ''2024-09-15'', ''2024-10-15'',
     ''2024-11-15'', ''2024-12-15'', ''2025-01-15'']"
  by (simp add: temp_cash_flow_txs_def thirteen_months_def income_on_def ledger_row_def cf_income_def)

lemma sum_abs_expenses_incomes: "sum_abs_expenses (map cf_income ds) = Inr 0"
  by (induction ds) (simp_all add: cf_income_def bind_result_def)

definition month_row :: "int \<Rightarrow> nat \<Rightarrow> pg_date \<times> int \<times> int" where
  "month_row y m = (Date y m 1, 100, 0)"

lemma thirteen_months_totals:
  "monthly_totals thirteen_dated =
     [month_row 2024 1, month_row 2024 2, month_row 2024 3, month_row 2024 4, month_row 2024 5,
      month_row 2024 6, month_row 2024 7, month_row 2024 8, month_row 2024 9, month_row 2024 10,
      month_row 2024 11, month_row 2024 12, month_row 2025 1]"
  by (simp add: monthly_totals_def month_row_def cf_income_def thirteen_dated_def)

lemma thirteen_months_ordered: "map month_key (ordered_months
     [month_row 2024 1, month_row 2024 2, month_row 2024 3, month_row 2024 4, month_row 2024 5,
      month_row 2024 6, month_row 2024 7, month_row 2024 8, month_row 2024 9, month_row 2024 10,
      month_row 2024 11, month_row 2024 12, month_row 2025 1]) =
    [''2024-01'', ''2024-02'', ''2024-03'', ''2024-04'', ''2024-05'', ''2024-06'',
           ''2024-07'', ''2024-08'', ''2024-09'', ''2024-10'', ''2024-11'', ''2024-12'']"
  by (simp add: ordered_months_def month_row_def month_index_def to_char_yyyy_mm_def yyyy_def
      digit_char_def)

lemma monthly_at_most_12: "v_monthly_data date_in rows = Inr ms \<Longrightarrow> length ms \<le> 12"
  by (auto simp: v_monthly_data_def bind_result_Inr ordered_months_def)

lemma get_analytics_report_never_returns:
  "get_analytics_report date_in p_user_id p_start_date p_end_date s \<noteq> Inr r"
  by (auto simp: get_analytics_report_def Let_def bind_result_Inr v_category_data_def)

text \<open>
  Claim C7. For every user and date range, the monthly series that
  \<^verbatim>\<open>get_analytics_report\<close> returns has at most 12 buckets in ascending order, and when
  more than 12 months of the range have data it keeps the most recent 12.

  The function returns no series: its second statement raises on every call, before the
  monthly statement is reached. With one settled income in each month from January 2024
  to January 2025 and the range 2024-01-01 to 2025-12-31 the call ends in SQLSTATE 42P01.
  The monthly statement has a defect of its own, which the raise hides: it is
  \<^verbatim>\<open>ORDER BY month_start ASC LIMIT 12\<close>, so from the thirteen month totals of that
  ledger it would keep 2024-01 to 2024-12 and leave out the most recent month.
\<close>

theorem get_analytics_report_raises:
  "(\<forall>r. get_analytics_report date_in p_user_id p_start_date p_end_date s \<noteq> Inr r)
   \<and> get_analytics_report date_in 7 ''2024-01-01'' ''2025-12-31'' thirteen_months =
       Inl Undefined_Table
   \<and> map month_key (ordered_months (monthly_totals thirteen_dated)) =
       [''2024-01'', ''2024-02'', ''2024-03'', ''2024-04'', ''2024-05'', ''2024-06'',
        ''2024-07'', ''2024-08'', ''2024-09'', ''2024-10'', ''2024-11'', ''2024-12'']"
proof (intro conjI allI)
  fix r
  show "get_analytics_report date_in p_user_id p_start_date p_end_date s \<noteq> Inr r"
    by (auto simp: get_analytics_report_def Let_def bind_result_Inr v_category_data_def)
next
  show "get_analytics_report date_in 7 ''2024-01-01'' ''2025-12-31'' thirteen_months =
       Inl Undefined_Table"
    unfolding get_analytics_report_def Let_def thirteen_months_cash_flow v_totals_by_type_def
      sum_abs_expenses_incomes v_category_data_def
    by (simp add: bind_result_def)
next
  show "map month_key (ordered_months (monthly_totals thirteen_dated)) =
       [''2024-01'', ''2024-02'', ''2024-03'', ''2024-04'', ''2024-05'', ''2024-06'',
        ''2024-07'', ''2024-08'', ''2024-09'', ''2024-10'', ''2024-11'', ''2024-12'']"
    unfolding thirteen_months_totals by (rule thirteen_months_ordered)
qed

lemma create_transfer_transaction_rows:
  assumes "create_transfer_transaction env gen dst u p_from p_to m d s = Inr s'"
  shows "\<exists>leg1 leg2. transactions s' = transactions s @ [leg1, leg2]
       \<and> \<not> include_in_reports leg1 \<and> \<not> include_in_reports leg2
       \<and> txn_type leg1 = Expense \<and> txn_type leg2 = Income
       \<and> categories s' = categories s"
proof -
  obtain tid id1 id2 where gen: "gen = (tid, id1, id2)" by (cases gen) auto
  from assms obtain a b s1 where
    1: "insert_transaction (transfer_leg id1 dst (session_now env) u p_from a
              d (''Transfer'' @ [CHR 0xC3, CHR 0xAA] @ ''ncia enviada'') Expense tid) s = Inr s1" and
    2: "insert_transaction (transfer_leg id2 dst (session_now env) u p_to b
              d (''Transfer'' @ [CHR 0xC3, CHR 0xAA] @ ''ncia recebida'') Income tid) s1 = Inr s'"
    unfolding create_transfer_transaction_def gen
    by (auto simp: bind_result_Inr)
  from insert_transaction_Inr [OF 1] insert_transaction_Inr [OF 2] show ?thesis
    by (simp add: transfer_leg_def)
qed

lemma temp_cash_flow_txs_append:
  "temp_cash_flow_txs u a b (ts @ ts') = temp_cash_flow_txs u a b ts @ temp_cash_flow_txs u a b ts'"
  by (simp add: temp_cash_flow_txs_def)

text \<open>
  Claim C10. The two entries that \<^verbatim>\<open>create_transfer_transaction\<close> inserts have
  \<^verbatim>\<open>include_in_reports = FALSE\<close> and the types expense and income, so for every user
  and date range neither leg contributes to the totals, the category breakdown or the
  monthly series of \<^verbatim>\<open>get_analytics_report\<close>: the temporary table that all its
  statements read holds the same rows before and after the transfer, so the totals
  statement and the monthly statement give the same result, the category statement raises
  as it does on every call, and the call ends the same way.
\<close>

theorem transfer_legs_not_in_report:
  assumes "create_transfer_transaction env gen dst u p_from p_to m d s = Inr s'"
  shows "(\<exists>leg1 leg2. transactions s' = transactions s @ [leg1, leg2]
            \<and> \<not> include_in_reports leg1 \<and> \<not> include_in_reports leg2
            \<and> txn_type leg1 = Expense \<and> txn_type leg2 = Income)
       \<and> temp_cash_flow_txs p_user_id p_start_date p_end_date (transactions s') =
           temp_cash_flow_txs p_user_id p_start_date p_end_date (transactions s)
       \<and> v_totals_by_type (temp_cash_flow_txs p_user_id p_start_date p_end_date (transactions s')) =
           v_totals_by_type (temp_cash_flow_txs p_user_id p_start_date p_end_date (transactions s))
       \<and> v_monthly_data date_in
             (temp_cash_flow_txs p_user_id p_start_date p_end_date (transactions s')) =
           v_monthly_data date_in
             (temp_cash_flow_txs p_user_id p_start_date p_end_date (transactions s))
       \<and> get_analytics_report date_in p_user_id p_start_date p_end_date s' =
           get_analytics_report date_in p_user_id p_start_date p_end_date s"
proof -
  from create_transfer_transaction_rows [OF assms] obtain leg1 leg2 where
    legs: "transactions s' = transactions s @ [leg1, leg2]"
      "\<not> include_in_reports leg1" "\<not> include_in_reports leg2"
      "txn_type leg1 = Expense" "txn_type leg2 = Income" and
    cats: "categories s' = categories s"
    by blast
  have "temp_cash_flow_txs p_user_id p_start_date p_end_date [leg1, leg2] = []"
    using legs(2,3) by (simp add: temp_cash_flow_txs_def)
  then have t: "temp_cash_flow_txs p_user_id p_start_date p_end_date (transactions s') =
           temp_cash_flow_txs p_user_id p_start_date p_end_date (transactions s)"
    unfolding legs(1) temp_cash_flow_txs_append by simp
  have "get_analytics_report date_in p_user_id p_start_date p_end_date s' =
           get_analytics_report date_in p_user_id p_start_date p_end_date s"
    unfolding get_analytics_report_def t cats ..
  with t legs show ?thesis by (simp only: simp_thms) blast
qed

theorem transfer_legs_not_in_report_witness:
  "\<exists>s'. create_transfer_transaction \<lparr>session_now = 9, auth_uid = 7, x_real_ip = None\<rparr>
           (30, 31, 32) Completed 7 11 12 500 ''2025-03-10'' (two_accounts 10000 0) = Inr s'
      \<and> temp_cash_flow_txs 7 ''2025-01-01'' ''2025-12-31'' (transactions s') = []
      \<and> map include_in_reports (transactions s') = [False, False]"
proof -
  have "\<exists>s'. create_transfer_transaction \<lparr>session_now = 9, auth_uid = 7, x_real_ip = None\<rparr>
           (30, 31, 32) Completed 7 11 12 500 ''2025-03-10'' (two_accounts 10000 0) = Inr s'"
    by (simp add: create_transfer_transaction_def insert_transaction_def transfer_leg_def eval_defs)
  then obtain s' where
    r: "create_transfer_transaction \<lparr>session_now = 9, auth_uid = 7, x_real_ip = None\<rparr>
           (30, 31, 32) Completed 7 11 12 500 ''2025-03-10'' (two_accounts 10000 0) = Inr s'" ..
  from transfer_legs_not_in_report [OF r, where date_in = "\<lambda>t. Inl Invalid_Date_Text"
      and p_user_id = 7 and p_start_date = "''2025-01-01''" and p_end_date = "''2025-12-31''"]
  obtain leg1 leg2 where
    legs: "transactions s' = transactions (two_accounts 10000 0) @ [leg1, leg2]"
      "\<not> include_in_reports leg1" "\<not> include_in_reports leg2" and
    t: "temp_cash_flow_txs 7 ''2025-01-01'' ''2025-12-31'' (transactions s') =
        temp_cash_flow_txs 7 ''2025-01-01'' ''2025-12-31'' (transactions (two_accounts 10000 0))"
    by blast
  have a: "temp_cash_flow_txs 7 ''2025-01-01'' ''2025-12-31'' (transactions s') = []"
    unfolding t by (simp add: two_accounts_def temp_cash_flow_txs_def)
  have b: "map include_in_reports (transactions s') = [False, False]"
    unfolding legs(1) using legs(2,3) by (simp add: two_accounts_def)
  show ?thesis
    by (rule exI [of _ s']) (rule conjI [OF r conjI [OF a b]])
qed

end
